theory Spec2Isabelle
  imports Complex_Main "HOL-Library.Char_ord" "HOL-Library.List_Lexorder"
    "HOL-Library.Product_Lexorder" "HOL-Library.Multiset"
begin

section \<open>Enumerations (app/core/enums.py)\<close>

datatype WorkflowStep =
    PLANNING_PREPAREDNESS
  | DATA_ASSEMBLY
  | SITUATION_ANALYSIS
  | STRATIFICATION
  | INTERVENTION_TAILORING
  | IMPACT_FORECASTING
  | SCENARIO_SELECTION
  | RESOURCE_OPTIMIZATION
  | SERVICE_DELIVERY
  | MONITORING_EVALUATION

fun step_value :: "WorkflowStep \<Rightarrow> string" where
  "step_value PLANNING_PREPAREDNESS = ''planning_preparedness''"
| "step_value DATA_ASSEMBLY = ''data_assembly''"
| "step_value SITUATION_ANALYSIS = ''situation_analysis''"
| "step_value STRATIFICATION = ''stratification''"
| "step_value INTERVENTION_TAILORING = ''intervention_tailoring''"
| "step_value IMPACT_FORECASTING = ''impact_forecasting''"
| "step_value SCENARIO_SELECTION = ''scenario_selection''"
| "step_value RESOURCE_OPTIMIZATION = ''resource_optimization''"
| "step_value SERVICE_DELIVERY = ''service_delivery''"
| "step_value MONITORING_EVALUATION = ''monitoring_evaluation''"

text \<open>\<open>WORKFLOW_STEP_ORDER = list(WorkflowStep)\<close>: the members in declaration order.\<close>

definition WORKFLOW_STEP_ORDER :: "WorkflowStep list" where
  "WORKFLOW_STEP_ORDER =
     [PLANNING_PREPAREDNESS, DATA_ASSEMBLY, SITUATION_ANALYSIS, STRATIFICATION,
      INTERVENTION_TAILORING, IMPACT_FORECASTING, SCENARIO_SELECTION,
      RESOURCE_OPTIMIZATION, SERVICE_DELIVERY, MONITORING_EVALUATION]"

fun WORKFLOW_STEP_LABELS :: "WorkflowStep \<Rightarrow> string" where
  "WORKFLOW_STEP_LABELS PLANNING_PREPAREDNESS = ''Planning and Preparedness''"
| "WORKFLOW_STEP_LABELS DATA_ASSEMBLY = ''Data Assembly and Management''"
| "WORKFLOW_STEP_LABELS SITUATION_ANALYSIS = ''Situation Analysis''"
| "WORKFLOW_STEP_LABELS STRATIFICATION = ''Stratification''"
| "WORKFLOW_STEP_LABELS INTERVENTION_TAILORING = ''Intervention Tailoring''"
| "WORKFLOW_STEP_LABELS IMPACT_FORECASTING = ''Impact Forecasting''"
| "WORKFLOW_STEP_LABELS SCENARIO_SELECTION = ''Strategic Scenario Selection''"
| "WORKFLOW_STEP_LABELS RESOURCE_OPTIMIZATION = ''Resource Optimization''"
| "WORKFLOW_STEP_LABELS SERVICE_DELIVERY = ''Service Delivery''"
| "WORKFLOW_STEP_LABELS MONITORING_EVALUATION = ''Monitoring and Evaluation''"

datatype StepStatus = NOT_STARTED | IN_PROGRESS | COMPLETED | BLOCKED

datatype PrerequisiteType = BLOCKING | NON_BLOCKING

datatype RiskLevel = VERY_LOW | LOW | MODERATE | HIGH

fun risk_value :: "RiskLevel \<Rightarrow> string" where
  "risk_value VERY_LOW = ''very_low''"
| "risk_value LOW = ''low''"
| "risk_value MODERATE = ''moderate''"
| "risk_value HIGH = ''high''"

datatype StratificationMetric = PFPR | INCIDENCE | EIR

section \<open>Values shared by the services\<close>

text \<open>
  Exceptions are values: a \<open>ValueError\<close> carries its message, a \<open>KeyError\<close> the missing
  key. A function that can raise returns \<open>error + 'a\<close>.
\<close>

datatype error = ValueError string | KeyError string | ZeroDivisionError

type_synonym uuid = nat
type_synonym datetime = nat

text \<open>The contents of a JSONB column, with Python's truth value of each.\<close>

datatype json =
    JNull
  | JBool bool
  | JInt int
  | JFloat real
  | JStr string
  | JArr "json list"
  | JObj "(string \<times> json) list"

fun truthy :: "json \<Rightarrow> bool" where
  "truthy JNull = False"
| "truthy (JBool b) = b"
| "truthy (JInt n) = (n \<noteq> 0)"
| "truthy (JFloat x) = (x \<noteq> 0)"
| "truthy (JStr s) = (s \<noteq> [])"
| "truthy (JArr xs) = (xs \<noteq> [])"
| "truthy (JObj kvs) = (kvs \<noteq> [])"

text \<open>\<open>not d.get(key)\<close> for a dictionary \<open>d\<close> held as an association list.\<close>

definition get_truthy :: "(string \<times> json) list \<Rightarrow> string \<Rightarrow> bool" where
  "get_truthy d k = (case map_of d k of None \<Rightarrow> False | Some v \<Rightarrow> truthy v)"

text \<open>\<open>sep.join(xs)\<close>.\<close>

fun join :: "string \<Rightarrow> string list \<Rightarrow> string" where
  "join sep [] = []"
| "join sep [x] = x"
| "join sep (x # y # ys) = x @ sep @ join sep (y # ys)"

section \<open>Workflow state machine (app/services/workflow_service.py)\<close>

text \<open>The prerequisite graph: step -> list of (prerequisite step, type).\<close>

fun PREREQUISITES :: "WorkflowStep \<Rightarrow> (WorkflowStep \<times> PrerequisiteType) list" where
  "PREREQUISITES PLANNING_PREPAREDNESS = []"
| "PREREQUISITES DATA_ASSEMBLY = [(PLANNING_PREPAREDNESS, BLOCKING)]"
| "PREREQUISITES SITUATION_ANALYSIS = [(DATA_ASSEMBLY, BLOCKING)]"
| "PREREQUISITES STRATIFICATION = [(SITUATION_ANALYSIS, BLOCKING)]"
| "PREREQUISITES INTERVENTION_TAILORING = [(STRATIFICATION, BLOCKING)]"
| "PREREQUISITES IMPACT_FORECASTING = [(INTERVENTION_TAILORING, BLOCKING)]"
| "PREREQUISITES SCENARIO_SELECTION = [(IMPACT_FORECASTING, BLOCKING)]"
| "PREREQUISITES RESOURCE_OPTIMIZATION = [(SCENARIO_SELECTION, BLOCKING)]"
| "PREREQUISITES SERVICE_DELIVERY = [(RESOURCE_OPTIMIZATION, BLOCKING)]"
| "PREREQUISITES MONITORING_EVALUATION = [(SERVICE_DELIVERY, NON_BLOCKING)]"

text \<open>
  A row of \<open>workflow_states\<close> (app/models/workflow.py), without its key columns
  \<open>project_id\<close> and \<open>step\<close>: the table is the map from that key to the row, one row
  per key, as \<open>scalar_one_or_none\<close> in \<open>_get_state\<close> expects.
  \<open>validation_errors\<close> is the dictionary \<open>{"errors": ..., "warnings": ...}\<close>.
\<close>

record WorkflowState =
  status :: StepStatus
  completion_percentage :: real
  step_notes :: "string option"
  data :: "(string \<times> json) list option"
  validation_errors :: "(string list \<times> string list) option"
  completed_at :: "datetime option"
  completed_by :: "uuid option"

record DataSource =
  ds_project_id :: uuid
  ds_name :: string
  source_type :: string
  quality_score :: "real option"

record StratificationConfig =
  cfg_id :: uuid
  cfg_project_id :: uuid
  cfg_name :: string
  is_active :: bool

record StratificationResult =
  res_config_id :: uuid

text \<open>The tables the workflow service reads and writes.\<close>

record db =
  workflow_states :: "uuid \<Rightarrow> WorkflowStep \<Rightarrow> WorkflowState option"
  data_sources :: "DataSource list"
  stratification_configs :: "StratificationConfig list"
  stratification_results :: "StratificationResult list"

text \<open>
  What the run-time decides and the source leaves open: the clock read by
  \<open>datetime.now\<close>, the iteration order of the two-element set of missing data types
  (\<open>epi_first\<close>), the float formats \<open>:.0%\<close>, \<open>:.0f\<close> and \<open>:.1f\<close> of the message
  texts, and the decimal text of an integer.
\<close>

record runtime =
  now :: datetime
  epi_first :: bool
  fmt_pct0 :: "real \<Rightarrow> string"
  fmt_f0 :: "real \<Rightarrow> string"
  fmt_f1 :: "real \<Rightarrow> string"
  str_int :: "int \<Rightarrow> string"

record StepStatusResponse =
  r_step :: WorkflowStep
  r_label :: string
  r_status :: StepStatus
  r_completion_percentage :: real
  r_is_accessible :: bool
  r_blocking_prerequisites :: "string list"
  r_non_blocking_prerequisites :: "string list"
  r_notes :: "string option"
  r_completed_at :: "datetime option"
  r_data :: "(string \<times> json) list option"
  r_validation_errors :: "(string list \<times> string list) option"

record StepValidationResponse =
  v_step :: WorkflowStep
  is_valid :: bool
  errors :: "string list"
  warnings :: "string list"

definition initialize_workflow :: "db \<Rightarrow> uuid \<Rightarrow> db" where
  "initialize_workflow d project_id =
     d\<lparr>workflow_states := (workflow_states d)(project_id :=
        (\<lambda>step. Some \<lparr>status = NOT_STARTED, completion_percentage = 0, step_notes = None,
           data = None, validation_errors = None, completed_at = None,
           completed_by = None\<rparr>))\<rparr>"

definition get_state :: "db \<Rightarrow> uuid \<Rightarrow> WorkflowStep \<Rightarrow> error + WorkflowState" where
  "get_state d project_id step =
     (case workflow_states d project_id step of
        None \<Rightarrow> Inl (ValueError (''Workflow state for step '' @ step_value step @ '' not found''))
      | Some s \<Rightarrow> Inr s)"

definition put_state :: "db \<Rightarrow> uuid \<Rightarrow> WorkflowStep \<Rightarrow> WorkflowState \<Rightarrow> db" where
  "put_state d project_id step s =
     d\<lparr>workflow_states := (workflow_states d)(project_id :=
        (workflow_states d project_id)(step \<mapsto> s))\<rparr>"

text \<open>\<open>_get_prerequisite_status\<close>: labels of the incomplete prerequisites, by type.\<close>

fun prerequisite_status ::
  "(WorkflowStep \<Rightarrow> WorkflowState option) \<Rightarrow> (WorkflowStep \<times> PrerequisiteType) list
     \<Rightarrow> string list \<times> string list" where
  "prerequisite_status state_map [] = ([], [])"
| "prerequisite_status state_map ((prereq_step, prereq_type) # rest) =
     (let (blocking, non_blocking) = prerequisite_status state_map rest;
          incomplete = (case state_map prereq_step of
                          None \<Rightarrow> True
                        | Some st \<Rightarrow> status st \<noteq> COMPLETED)
      in if incomplete then
           (if prereq_type = BLOCKING
            then (WORKFLOW_STEP_LABELS prereq_step # blocking, non_blocking)
            else (blocking, WORKFLOW_STEP_LABELS prereq_step # non_blocking))
         else (blocking, non_blocking))"

definition get_step :: "db \<Rightarrow> uuid \<Rightarrow> WorkflowStep \<Rightarrow> error + StepStatusResponse" where
  "get_step d project_id step =
     (case workflow_states d project_id step of
        None \<Rightarrow> Inl (ValueError (''Step '' @ step_value step @ '' not found''))
      | Some state \<Rightarrow>
          (let (blocking, non_blocking) =
                 prerequisite_status (workflow_states d project_id) (PREREQUISITES step)
           in Inr \<lparr>r_step = step, r_label = WORKFLOW_STEP_LABELS step,
                   r_status = status state,
                   r_completion_percentage = completion_percentage state,
                   r_is_accessible = (length blocking = 0),
                   r_blocking_prerequisites = blocking,
                   r_non_blocking_prerequisites = non_blocking,
                   r_notes = step_notes state, r_completed_at = completed_at state,
                   r_data = data state,
                   r_validation_errors = validation_errors state\<rparr>))"

subsection \<open>Step validators\<close>

definition state_data :: "WorkflowState \<Rightarrow> (string \<times> json) list" where
  "state_data state = (case data state of None \<Rightarrow> [] | Some kvs \<Rightarrow> kvs)"

definition validate_planning ::
  "db \<Rightarrow> uuid \<Rightarrow> WorkflowStep \<Rightarrow> error + (string list \<times> string list)" where
  "validate_planning d project_id step =
     (case get_state d project_id step of
        Inl e \<Rightarrow> Inl e
      | Inr state \<Rightarrow>
          Inr ((if \<not> get_truthy (state_data state) ''scope_of_work''
                then [''Scope of work not documented''] else [])
               @ (if \<not> get_truthy (state_data state) ''operational_unit''
                  then [''Operational unit (district/region) not defined''] else []),
               (if \<not> get_truthy (state_data state) ''timeline''
                then [''Timeline not yet created''] else [])))"

text \<open>The set \<open>{"epidemiological", "demographic"}\<close> in the order the run-time iterates it.\<close>

definition required_types :: "runtime \<Rightarrow> string list" where
  "required_types rt =
     (if epi_first rt then [''epidemiological'', ''demographic'']
      else [''demographic'', ''epidemiological''])"

definition low_quality_warnings :: "runtime \<Rightarrow> DataSource list \<Rightarrow> string list" where
  "low_quality_warnings rt dss =
     concat (map (\<lambda>ds. case quality_score ds of
                          None \<Rightarrow> []
                        | Some q \<Rightarrow>
                            if q < 0.5
                            then [''Low quality score for '' @ [CHR 0x27] @ ds_name ds
                                    @ [CHR 0x27] @ '': '' @ fmt_pct0 rt q]
                            else []) dss)"

definition validate_data_assembly ::
  "runtime \<Rightarrow> db \<Rightarrow> uuid \<Rightarrow> WorkflowStep \<Rightarrow> error + (string list \<times> string list)" where
  "validate_data_assembly rt d project_id step =
     (let dss = filter (\<lambda>ds. ds_project_id ds = project_id) (data_sources d)
      in if length dss = 0 then Inr ([''No data sources uploaded''], [])
         else
           (let source_types = set (map source_type dss);
                missing = filter (\<lambda>t. t \<notin> source_types) (required_types rt)
            in Inr ((if missing \<noteq> []
                     then [''Missing required data types: '' @ join '', '' missing]
                     else []),
                    low_quality_warnings rt dss)))"

definition validate_situation_analysis ::
  "db \<Rightarrow> uuid \<Rightarrow> WorkflowStep \<Rightarrow> error + (string list \<times> string list)" where
  "validate_situation_analysis d project_id step =
     (case get_state d project_id step of
        Inl e \<Rightarrow> Inl e
      | Inr state \<Rightarrow>
          Inr ((if \<not> get_truthy (state_data state) ''analysis_completed''
                then [''Situation analysis not marked as completed''] else []), []))"

definition validate_stratification ::
  "db \<Rightarrow> uuid \<Rightarrow> WorkflowStep \<Rightarrow> error + (string list \<times> string list)" where
  "validate_stratification d project_id step =
     (let configs = filter (\<lambda>c. cfg_project_id c = project_id \<and> is_active c)
                      (stratification_configs d)
      in if length configs = 0 then Inr ([''No active stratification configuration''], [])
         else Inr (concat (map (\<lambda>c.
                     if length (filter (\<lambda>r. res_config_id r = cfg_id c)
                                  (stratification_results d)) = 0
                     then [''No stratification results for config '' @ [CHR 0x27]
                             @ cfg_name c @ [CHR 0x27]]
                     else []) configs), []))"

definition validate_generic ::
  "runtime \<Rightarrow> db \<Rightarrow> uuid \<Rightarrow> WorkflowStep \<Rightarrow> error + (string list \<times> string list)" where
  "validate_generic rt d project_id step =
     (case get_state d project_id step of
        Inl e \<Rightarrow> Inl e
      | Inr state \<Rightarrow>
          Inr ([], (if completion_percentage state < 100
                    then [''Step is '' @ fmt_f0 rt (completion_percentage state)
                            @ ''% complete'']
                    else [])))"

text \<open>The dispatch table of \<open>validate_step\<close>.\<close>

fun validators ::
  "WorkflowStep \<Rightarrow> runtime \<Rightarrow> db \<Rightarrow> uuid \<Rightarrow> WorkflowStep
     \<Rightarrow> error + (string list \<times> string list)" where
  "validators PLANNING_PREPAREDNESS = (\<lambda>rt. validate_planning)"
| "validators DATA_ASSEMBLY = validate_data_assembly"
| "validators SITUATION_ANALYSIS = (\<lambda>rt. validate_situation_analysis)"
| "validators STRATIFICATION = (\<lambda>rt. validate_stratification)"
| "validators INTERVENTION_TAILORING = validate_generic"
| "validators IMPACT_FORECASTING = validate_generic"
| "validators SCENARIO_SELECTION = validate_generic"
| "validators RESOURCE_OPTIMIZATION = validate_generic"
| "validators SERVICE_DELIVERY = validate_generic"
| "validators MONITORING_EVALUATION = validate_generic"

definition validate_step ::
  "runtime \<Rightarrow> db \<Rightarrow> uuid \<Rightarrow> WorkflowStep \<Rightarrow> error + (db \<times> StepValidationResponse)" where
  "validate_step rt d project_id step =
     (case validators step rt d project_id step of
        Inl e \<Rightarrow> Inl e
      | Inr (errs, warns) \<Rightarrow>
          (case get_state d project_id step of
             Inl e \<Rightarrow> Inl e
           | Inr state \<Rightarrow>
               Inr (put_state d project_id step
                      (state\<lparr>validation_errors := Some (errs, warns)\<rparr>),
                    \<lparr>v_step = step, is_valid = (length errs = 0), errors = errs,
                      warnings = warns\<rparr>)))"

definition complete_step ::
  "runtime \<Rightarrow> db \<Rightarrow> uuid \<Rightarrow> WorkflowStep \<Rightarrow> uuid \<Rightarrow> error + (db \<times> StepStatusResponse)" where
  "complete_step rt d project_id step user_id =
     (case validate_step rt d project_id step of
        Inl e \<Rightarrow> Inl e
      | Inr (d1, validation) \<Rightarrow>
          if \<not> is_valid validation
          then Inl (ValueError (''Step cannot be completed: '' @ join '', '' (errors validation)))
          else
            (case get_state d1 project_id step of
               Inl e \<Rightarrow> Inl e
             | Inr state \<Rightarrow>
                 (let d2 = put_state d1 project_id step
                             (state\<lparr>status := COMPLETED, completion_percentage := 100,
                                completed_at := Some (now rt),
                                completed_by := Some user_id\<rparr>)
                  in case get_step d2 project_id step of
                       Inl e \<Rightarrow> Inl e
                     | Inr resp \<Rightarrow> Inr (d2, resp))))"

text \<open>
  The cascade of \<open>reopen_step\<close>: the inner loop over the prerequisites of one
  downstream step, then the outer loop over \<open>WORKFLOW_STEP_ORDER\<close>. A missing row of a
  matching downstream step raises from \<open>_get_state\<close>.
\<close>

fun reopen_prereqs ::
  "db \<Rightarrow> uuid \<Rightarrow> WorkflowStep \<Rightarrow> WorkflowStep \<Rightarrow> (WorkflowStep \<times> PrerequisiteType) list
     \<Rightarrow> error + db" where
  "reopen_prereqs d project_id step downstream_step [] = Inr d"
| "reopen_prereqs d project_id step downstream_step ((prereq_step, prereq_type) # rest) =
     (if prereq_step = step \<and> prereq_type = BLOCKING then
        (case get_state d project_id downstream_step of
           Inl e \<Rightarrow> Inl e
         | Inr downstream_state \<Rightarrow>
             if status downstream_state = COMPLETED
             then reopen_prereqs
                    (put_state d project_id downstream_step
                       (downstream_state\<lparr>status := IN_PROGRESS, completed_at := None,
                          completed_by := None\<rparr>))
                    project_id step downstream_step rest
             else reopen_prereqs d project_id step downstream_step rest)
      else reopen_prereqs d project_id step downstream_step rest)"

fun reopen_cascade :: "db \<Rightarrow> uuid \<Rightarrow> WorkflowStep \<Rightarrow> WorkflowStep list \<Rightarrow> error + db" where
  "reopen_cascade d project_id step [] = Inr d"
| "reopen_cascade d project_id step (downstream_step # rest) =
     (case reopen_prereqs d project_id step downstream_step (PREREQUISITES downstream_step) of
        Inl e \<Rightarrow> Inl e
      | Inr d' \<Rightarrow> reopen_cascade d' project_id step rest)"

definition reopen_step ::
  "db \<Rightarrow> uuid \<Rightarrow> WorkflowStep \<Rightarrow> error + (db \<times> StepStatusResponse)" where
  "reopen_step d project_id step =
     (case get_state d project_id step of
        Inl e \<Rightarrow> Inl e
      | Inr state \<Rightarrow>
          (case reopen_cascade
                  (put_state d project_id step
                     (state\<lparr>status := IN_PROGRESS, completed_at := None,
                        completed_by := None\<rparr>))
                  project_id step WORKFLOW_STEP_ORDER of
             Inl e \<Rightarrow> Inl e
           | Inr d' \<Rightarrow>
               (case get_step d' project_id step of
                  Inl e \<Rightarrow> Inl e
                | Inr resp \<Rightarrow> Inr (d', resp))))"

subsection \<open>Notions used to state the workflow properties\<close>

text \<open>
  What \<open>reopen_step\<close> does to a row it reopens, what it does to a downstream row
  (only a completed one is touched), and the direct blocking dependents of a step as
  \<open>PREREQUISITES\<close> lists them.
\<close>

definition reset :: "WorkflowState \<Rightarrow> WorkflowState" where
  "reset st = st\<lparr>status := IN_PROGRESS, completed_at := None, completed_by := None\<rparr>"

definition cond_reset :: "WorkflowState \<Rightarrow> WorkflowState" where
  "cond_reset st = (if status st = COMPLETED then reset st else st)"

definition blocking_dependent :: "WorkflowStep \<Rightarrow> WorkflowStep \<Rightarrow> bool" where
  "blocking_dependent step t = ((step, BLOCKING) \<in> set (PREREQUISITES t))"

subsection \<open>Example projects\<close>

definition empty_db :: db where
  "empty_db = \<lparr>workflow_states = (\<lambda>project_id step. None), data_sources = [],
     stratification_configs = [], stratification_results = []\<rparr>"

text \<open>A run-time for the examples: the clock, and the formats of the values that occur.\<close>

definition example_runtime :: runtime where
  "example_runtime =
     \<lparr>now = 42, epi_first = True,
       fmt_pct0 = (\<lambda>x. if x = 0 then ''0%'' else ''80%''),
       fmt_f0 = (\<lambda>x. ''0''),
       fmt_f1 = (\<lambda>x. if x = 10 then ''10.0'' else ''50.0''),
       str_int = (\<lambda>n. if n = 1 then ''1'' else ''2'')\<rparr>"

definition planned_db :: db where
  "planned_db =
     put_state (initialize_workflow empty_db 3) 3 PLANNING_PREPAREDNESS
       \<lparr>status = IN_PROGRESS, completion_percentage = 0, step_notes = None,
         data = Some [(''scope_of_work'', JStr ''x''), (''operational_unit'', JStr ''y'')],
         validation_errors = None, completed_at = None, completed_by = None\<rparr>"

definition completed_state :: WorkflowState where
  "completed_state =
     \<lparr>status = COMPLETED, completion_percentage = 100, step_notes = None, data = None,
       validation_errors = None, completed_at = Some 5, completed_by = Some 7\<rparr>"

definition three_done_db :: db where
  "three_done_db =
     put_state (put_state (put_state (initialize_workflow empty_db 3)
       3 PLANNING_PREPAREDNESS completed_state)
       3 DATA_ASSEMBLY completed_state)
       3 SITUATION_ANALYSIS completed_state"

section \<open>Stratification engine (app/services/stratification_service.py)\<close>

text \<open>
  A threshold band as \<open>create_config\<close> and \<open>update_config\<close> store it:
  \<open>{"min_value": ..., "max_value": ...}\<close>. The thresholds of a configuration are a
  dictionary from level names to bands. Floats are read as real numbers.
\<close>

record ThresholdRange =
  min_value :: real
  max_value :: real

type_synonym thresholds = "string \<Rightarrow> ThresholdRange option"

text \<open>
  The loop of \<open>_assign_risk_level\<close> over the level names, which returns at the first
  band that holds the value and falls through to \<open>RiskLevel.HIGH\<close>. The names are
  those of the enumeration's members, so the loop runs over the members and
  \<open>RiskLevel(level_name)\<close> is the member itself.
\<close>

fun assign_risk_level_loop :: "real \<Rightarrow> thresholds \<Rightarrow> RiskLevel list \<Rightarrow> RiskLevel" where
  "assign_risk_level_loop metric_value ths [] = HIGH"
| "assign_risk_level_loop metric_value ths (level # rest) =
     (case ths (risk_value level) of
        None \<Rightarrow> assign_risk_level_loop metric_value ths rest
      | Some t \<Rightarrow>
          if min_value t \<le> metric_value \<and> metric_value < max_value t then level
          else assign_risk_level_loop metric_value ths rest)"

definition assign_risk_level :: "real \<Rightarrow> thresholds \<Rightarrow> RiskLevel" where
  "assign_risk_level metric_value ths =
     assign_risk_level_loop metric_value ths [VERY_LOW, LOW, MODERATE, HIGH]"

definition determine_eligible_interventions ::
  "RiskLevel \<Rightarrow> StratificationMetric \<Rightarrow> 'unit_data \<Rightarrow> string list" where
  "determine_eligible_interventions risk_level metric unit_data =
     [''CM'']
     @ (if risk_level \<in> {LOW, MODERATE, HIGH} then [''ITN''] else [])
     @ (if risk_level \<in> {MODERATE, HIGH} then [''IRS''] else [])
     @ (if risk_level \<noteq> VERY_LOW then [''IPTp''] else [])
     @ (if risk_level \<in> {MODERATE, HIGH} then [''SMC'', ''VACCINE''] else [])"

subsection \<open>Notions used to state the stratification properties\<close>

text \<open>The order of the risk levels, lowest first.\<close>

fun risk_rank :: "RiskLevel \<Rightarrow> nat" where
  "risk_rank VERY_LOW = 0"
| "risk_rank LOW = 1"
| "risk_rank MODERATE = 2"
| "risk_rank HIGH = 3"

text \<open>
  Bands that cover \<open>[a, b)\<close> contiguously: the first starts at \<open>a\<close>, each next one
  starts where the one before ends, and the last ends at \<open>b\<close>. The bands of a
  configuration are those it has among the four levels, in the order of the levels.
\<close>

fun chain :: "real \<Rightarrow> ThresholdRange list \<Rightarrow> real \<Rightarrow> bool" where
  "chain a [] b = (a = b)"
| "chain a (t # ts) b = (min_value t = a \<and> min_value t \<le> max_value t \<and> chain (max_value t) ts b)"

definition bands_of :: "thresholds \<Rightarrow> RiskLevel list \<Rightarrow> ThresholdRange list" where
  "bands_of ths levels = List.map_filter (\<lambda>level. ths (risk_value level)) levels"

definition covers_0_100 :: "thresholds \<Rightarrow> bool" where
  "covers_0_100 ths = chain 0 (bands_of ths [VERY_LOW, LOW, MODERATE, HIGH]) 100"

text \<open>The first band, in the fixed order, that holds the value.\<close>

definition first_band :: "real \<Rightarrow> thresholds \<Rightarrow> RiskLevel option" where
  "first_band v ths =
     find (\<lambda>level. case ths (risk_value level) of
                      None \<Rightarrow> False
                    | Some t \<Rightarrow> min_value t \<le> v \<and> v < max_value t)
       [VERY_LOW, LOW, MODERATE, HIGH]"

text \<open>A configuration with the four bands 0-1, 1-10, 10-35 and 35-100.\<close>

definition example_thresholds :: thresholds where
  "example_thresholds =
     [''very_low'' \<mapsto> \<lparr>min_value = 0, max_value = 1\<rparr>,
      ''low'' \<mapsto> \<lparr>min_value = 1, max_value = 10\<rparr>,
      ''moderate'' \<mapsto> \<lparr>min_value = 10, max_value = 35\<rparr>,
      ''high'' \<mapsto> \<lparr>min_value = 35, max_value = 100\<rparr>]"

section \<open>Intervention scenarios (app/models/intervention.py)\<close>

text \<open>
  The columns of \<open>intervention_scenarios\<close> that costing and forecasting read or write.
  \<open>interventions\<close> is the dictionary from unit keys to lists of intervention codes, held
  in its iteration order with one entry per key. Python floats are read as real numbers
  throughout: sums, products and quotients are exact.
\<close>

record InterventionScenario =
  interventions :: "(string \<times> string list) list"
  total_cost :: "real option"
  estimated_cases_averted :: "int option"
  estimated_deaths_averted :: "int option"

section \<open>Forecast engine (app/services/forecast_service.py)\<close>











datatype ForecastStatus = FS_PENDING | FS_RUNNING | FS_COMPLETED | FS_FAILED






text \<open>\<open>baseline_data\<close>: a field is \<open>None\<close> when the dictionary has no such key.\<close>

record baseline_data =
  baseline_cases :: "int option"
  baseline_deaths :: "int option"
  baseline_prevalence :: "real option"
  population :: "int option"

record ForecastResult =
  fr_scenario_id :: uuid
  fr_status :: ForecastStatus
  fr_model_type :: string
  fr_projected_cases :: "(int \<times> int) list option"
  fr_projected_deaths :: "(int \<times> int) list option"
  fr_projected_prevalence :: "(int \<times> real) list option"
  cases_averted :: "int option"
  deaths_averted :: "int option"
  dalys_averted :: "real option"
  cost_per_case_averted :: "real option"
  cost_per_death_averted :: "real option"
  cost_per_daly_averted :: "real option"
  uncertainty_bounds :: "((int \<times> int) \<times> (int \<times> int)) option"
  fr_baseline :: "baseline_data option"
  fr_projection_years :: int

text \<open>The tables of scenarios and of forecast results.\<close>

record scenario_db =
  scenarios :: "uuid \<Rightarrow> InterventionScenario option"
  forecast_results :: "ForecastResult list"




subsection \<open>Example scenarios\<close>






section \<open>Costing engine (app/services/costing_service.py)\<close>

text \<open>A table of unit costs: intervention code to parameter name to value.\<close>

type_synonym unit_costs = "string \<Rightarrow> (string \<Rightarrow> real option) option"

definition DEFAULT_UNIT_COSTS :: unit_costs where
  "DEFAULT_UNIT_COSTS =
     map_of
       [(''itn'', map_of [(''procurement'', 2.50), (''distribution'', 1.50),
           (''bcc_annual'', 0.10), (''nets_per_capita'', 0.5), (''replacement_years'', 3)]),
        (''irs'', map_of [(''insecticide_per_structure'', 5.00),
           (''operations_per_structure'', 3.50), (''mobilization_per_capita'', 0.20),
           (''persons_per_structure'', 5)]),
        (''smc'', map_of [(''drugs_per_child_per_cycle'', 0.50),
           (''delivery_per_child_per_cycle'', 0.80), (''default_cycles'', 4),
           (''under5_proportion'', 0.18)]),
        (''iptp'', map_of [(''drugs_per_pregnant_woman'', 0.30), (''delivery_per_visit'', 0.50),
           (''pregnant_proportion'', 0.04), (''visits_per_pregnancy'', 4)]),
        (''vaccine'', map_of [(''vaccine_per_dose'', 2.00), (''delivery_per_dose'', 1.50),
           (''doses_per_child'', 4), (''target_proportion'', 0.03)]),
        (''cm'', map_of [(''rdt_per_test'', 0.50), (''act_per_treatment'', 1.20),
           (''test_rate'', 0.15), (''positivity_rate'', 0.30)]),
        (''pmc'', map_of [(''drugs_per_infant_per_dose'', 0.40), (''delivery_per_dose'', 0.50),
           (''doses'', 3), (''infant_proportion'', 0.03)]),
        (''lsm'', map_of [(''cost_per_hectare_per_year'', 150.00),
           (''hectares_per_1000_pop'', 0.5)])]"

text \<open>\<open>ic.get(key, default)\<close> for \<open>ic = costs.get(intervention, {})\<close>.\<close>

definition ic_get :: "unit_costs \<Rightarrow> string \<Rightarrow> string \<Rightarrow> real \<Rightarrow> real" where
  "ic_get costs code key dflt =
     (case costs code of
        None \<Rightarrow> dflt
      | Some ic \<Rightarrow> (case ic key of None \<Rightarrow> dflt | Some v \<Rightarrow> v))"

text \<open>
  \<open>_calculate_intervention_cost\<close>. The two divisions by a parameter of the table raise
  \<open>ZeroDivisionError\<close> on a zero; an unknown code costs nothing.
\<close>

definition calculate_intervention_cost ::
  "string \<Rightarrow> int \<Rightarrow> unit_costs \<Rightarrow> int \<Rightarrow> error + real" where
  "calculate_intervention_cost code pop costs years =
     (if code = ''itn'' then
        (let nets = real_of_int pop * ic_get costs code ''nets_per_capita'' 0.5;
             replacement = ic_get costs code ''replacement_years'' 3
         in if replacement = 0 then Inl ZeroDivisionError
            else
              (let cycles = real_of_int years / replacement
               in Inr (nets * ic_get costs code ''procurement'' 2.5 * cycles
                       + nets * ic_get costs code ''distribution'' 1.5 * cycles
                       + real_of_int pop * ic_get costs code ''bcc_annual'' 0.1
                           * real_of_int years)))
      else if code = ''irs'' then
        (if ic_get costs code ''persons_per_structure'' 5 = 0 then Inl ZeroDivisionError
         else
           (let structures = real_of_int pop / ic_get costs code ''persons_per_structure'' 5
            in Inr (structures * ic_get costs code ''insecticide_per_structure'' 5
                      * real_of_int years
                    + structures * ic_get costs code ''operations_per_structure'' 3.5
                        * real_of_int years
                    + real_of_int pop * ic_get costs code ''mobilization_per_capita'' 0.2
                        * real_of_int years)))
      else if code = ''smc'' then
        (let target = real_of_int pop * ic_get costs code ''under5_proportion'' 0.18;
             cycles = ic_get costs code ''default_cycles'' 4
         in Inr (target * ic_get costs code ''drugs_per_child_per_cycle'' 0.5 * cycles
                   * real_of_int years
                 + target * ic_get costs code ''delivery_per_child_per_cycle'' 0.8 * cycles
                     * real_of_int years))
      else if code = ''iptp'' then
        (let target = real_of_int pop * ic_get costs code ''pregnant_proportion'' 0.04;
             visits = ic_get costs code ''visits_per_pregnancy'' 4
         in Inr (target * ic_get costs code ''drugs_per_pregnant_woman'' 0.3 * visits
                   * real_of_int years
                 + target * ic_get costs code ''delivery_per_visit'' 0.5 * visits
                     * real_of_int years))
      else if code = ''vaccine'' then
        (let target = real_of_int pop * ic_get costs code ''target_proportion'' 0.03;
             doses = ic_get costs code ''doses_per_child'' 4
         in Inr (target * ic_get costs code ''vaccine_per_dose'' 2.0 * doses
                   * real_of_int years
                 + target * ic_get costs code ''delivery_per_dose'' 1.5 * doses
                     * real_of_int years))
      else if code = ''cm'' then
        (let tests = real_of_int pop * ic_get costs code ''test_rate'' 0.15;
             treatments = tests * ic_get costs code ''positivity_rate'' 0.3
         in Inr (tests * ic_get costs code ''rdt_per_test'' 0.5 * real_of_int years
                 + treatments * ic_get costs code ''act_per_treatment'' 1.2
                     * real_of_int years))
      else if code = ''pmc'' then
        (let target = real_of_int pop * ic_get costs code ''infant_proportion'' 0.03;
             doses = ic_get costs code ''doses'' 3
         in Inr (target * ic_get costs code ''drugs_per_infant_per_dose'' 0.4 * doses
                   * real_of_int years
                 + target * ic_get costs code ''delivery_per_dose'' 0.5 * doses
                     * real_of_int years))
      else if code = ''lsm'' then
        (let hectares = (real_of_int pop / 1000) * ic_get costs code ''hectares_per_1000_pop'' 0.5
         in Inr (hectares * ic_get costs code ''cost_per_hectare_per_year'' 150
                   * real_of_int years))
      else Inr 0)"

definition effect_rates :: "string \<Rightarrow> real option" where
  "effect_rates =
     map_of [(''itn'', 0.05), (''irs'', 0.04), (''smc'', 0.06), (''cm'', 0.03),
             (''iptp'', 0.01), (''vaccine'', 0.02), (''pmc'', 0.015), (''lsm'', 0.005)]"

definition estimate_effect :: "string \<Rightarrow> int \<Rightarrow> real" where
  "estimate_effect code pop =
     real_of_int pop * (case effect_rates code of None \<Rightarrow> 0.01 | Some rate \<Rightarrow> rate)"

text \<open>
  A row of \<open>population_data\<close>; a field is \<open>None\<close> when the dictionary has no such key.
\<close>

record population_item =
  admin_unit_code :: "string option"
  admin_unit_name :: "string option"
  item_population :: "int option"

text \<open>
  The dictionary comprehension that builds \<open>pop_map\<close>, a later row replacing an earlier
  one of the same key. The default \<open>item["admin_unit_name"]\<close> is evaluated for every row,
  so a row without a name raises \<open>KeyError\<close> even when it has a code.
\<close>

fun pop_map_loop ::
  "(string \<Rightarrow> population_item option) \<Rightarrow> population_item list
     \<Rightarrow> error + (string \<Rightarrow> population_item option)" where
  "pop_map_loop m [] = Inr m"
| "pop_map_loop m (item # rest) =
     (case admin_unit_name item of
        None \<Rightarrow> Inl (KeyError ''admin_unit_name'')
      | Some name \<Rightarrow>
          pop_map_loop
            (m((case admin_unit_code item of None \<Rightarrow> name | Some code \<Rightarrow> code) \<mapsto> item))
            rest)"

text \<open>An entry of \<open>ce_data\<close>; \<open>ce_icer\<close> is \<open>None\<close> for \<open>float("inf")\<close>.\<close>

record ce_item =
  ce_unit_key :: string
  ce_intervention :: string
  ce_cost :: real
  ce_effect :: real
  ce_icer :: "real option"

fun ce_unit :: "string \<Rightarrow> int \<Rightarrow> string list \<Rightarrow> error + ce_item list" where
  "ce_unit unit_key pop [] = Inr []"
| "ce_unit unit_key pop (code # rest) =
     (case calculate_intervention_cost code pop DEFAULT_UNIT_COSTS 5 of
        Inl e \<Rightarrow> Inl e
      | Inr c \<Rightarrow>
          (case ce_unit unit_key pop rest of
             Inl e \<Rightarrow> Inl e
           | Inr items \<Rightarrow>
               Inr (\<lparr>ce_unit_key = unit_key, ce_intervention = code, ce_cost = c,
                      ce_effect = estimate_effect code pop,
                      ce_icer = (if 0 < estimate_effect code pop
                                 then Some (c / estimate_effect code pop) else None)\<rparr>
                    # items)))"

text \<open>\<open>pop_map.get(unit_key, {}).get("population", 0)\<close>.\<close>

definition unit_population :: "(string \<Rightarrow> population_item option) \<Rightarrow> string \<Rightarrow> int" where
  "unit_population pop_map unit_key =
     (case pop_map unit_key of
        None \<Rightarrow> 0
      | Some unit_info \<Rightarrow> (case item_population unit_info of None \<Rightarrow> 0 | Some n \<Rightarrow> n))"

fun ce_data ::
  "(string \<Rightarrow> population_item option) \<Rightarrow> (string \<times> string list) list
     \<Rightarrow> error + ce_item list" where
  "ce_data pop_map [] = Inr []"
| "ce_data pop_map ((unit_key, codes) # rest) =
     (case ce_unit unit_key (unit_population pop_map unit_key) codes of
        Inl e \<Rightarrow> Inl e
      | Inr items \<Rightarrow>
          (case ce_data pop_map rest of
             Inl e \<Rightarrow> Inl e
           | Inr others \<Rightarrow> Inr (items @ others)))"

text \<open>
  The sort key \<open>x["icer"]\<close>: a pair that orders every finite ratio before infinity.
  \<open>list.sort\<close> is stable, as \<open>sort_key\<close> is.
\<close>

definition icer_key :: "ce_item \<Rightarrow> nat \<times> real" where
  "icer_key x = (case ce_icer x of None \<Rightarrow> (1, 0) | Some ratio \<Rightarrow> (0, ratio))"

text \<open>
  \<open>optimized[unit_key].append(intervention)\<close>, with a new key entered at the end of the
  dictionary.
\<close>

definition append_intervention ::
  "(string \<times> string list) list \<Rightarrow> string \<Rightarrow> string \<Rightarrow> (string \<times> string list) list" where
  "append_intervention optimized unit_key code =
     (if unit_key \<in> fst ` set optimized
      then map (\<lambda>(k, codes). if k = unit_key then (k, codes @ [code]) else (k, codes)) optimized
      else optimized @ [(unit_key, [code])])"

fun select_loop ::
  "real \<Rightarrow> ce_item list \<Rightarrow> (string \<times> string list) list \<times> real
     \<Rightarrow> (string \<times> string list) list \<times> real" where
  "select_loop budget_constraint [] (optimized, running_cost) = (optimized, running_cost)"
| "select_loop budget_constraint (x # rest) (optimized, running_cost) =
     (if running_cost + ce_cost x \<le> budget_constraint
      then select_loop budget_constraint rest
             (append_intervention optimized (ce_unit_key x) (ce_intervention x),
              running_cost + ce_cost x)
      else select_loop budget_constraint rest (optimized, running_cost))"

definition optimize_scenario ::
  "scenario_db \<Rightarrow> uuid \<Rightarrow> real \<Rightarrow> population_item list
     \<Rightarrow> error + (scenario_db \<times> InterventionScenario)" where
  "optimize_scenario d scenario_id budget_constraint population_data =
     (case scenarios d scenario_id of
        None \<Rightarrow> Inl (ValueError ''Scenario not found'')
      | Some scenario \<Rightarrow>
          (case pop_map_loop Map.empty population_data of
             Inl e \<Rightarrow> Inl e
           | Inr pop_map \<Rightarrow>
               (case ce_data pop_map (interventions scenario) of
                  Inl e \<Rightarrow> Inl e
                | Inr items \<Rightarrow>
                    (let (optimized, running_cost) =
                           select_loop budget_constraint (sort_key icer_key items) ([], 0);
                         scenario' = scenario\<lparr>interventions := optimized,
                                       total_cost := Some running_cost\<rparr>
                     in Inr (d\<lparr>scenarios := (scenarios d)(scenario_id \<mapsto> scenario')\<rparr>,
                             scenario')))))"

subsection \<open>Notions used to state the costing properties\<close>

text \<open>The (unit, intervention) pairs of an assignment.\<close>

definition assigned_pairs :: "(string \<times> string list) list \<Rightarrow> (string \<times> string) set" where
  "assigned_pairs assignment = {(k, code). \<exists>codes. (k, codes) \<in> set assignment \<and> code \<in> set codes}"

text \<open>
  The cost of an assignment at the default unit costs over five years: the sum, over its
  pairs, of what \<open>_calculate_intervention_cost\<close> returns for the pair.
\<close>

definition pair_cost :: "(string \<Rightarrow> population_item option) \<Rightarrow> string \<Rightarrow> string \<Rightarrow> real" where
  "pair_cost pop_map k code =
     (case calculate_intervention_cost code (unit_population pop_map k) DEFAULT_UNIT_COSTS 5 of
        Inl e \<Rightarrow> 0 | Inr c \<Rightarrow> c)"

definition assignment_cost ::
  "(string \<Rightarrow> population_item option) \<Rightarrow> (string \<times> string list) list \<Rightarrow> real" where
  "assignment_cost pop_map assignment =
     sum_list (map (\<lambda>(k, codes). sum_list (map (pair_cost pop_map k) codes)) assignment)"

subsection \<open>Example of an optimization\<close>

definition three_nets_scenario :: InterventionScenario where
  "three_nets_scenario =
     \<lparr>interventions = [(''U1'', [''smc'', ''itn'', ''vaccine''])], total_cost = None,
       estimated_cases_averted = None, estimated_deaths_averted = None\<rparr>"

definition costing_db :: scenario_db where
  "costing_db = \<lparr>scenarios = [6 \<mapsto> three_nets_scenario], forecast_results = []\<rparr>"

definition thousand_people :: "population_item list" where
  "thousand_people =
     [\<lparr>admin_unit_code = Some ''U1'', admin_unit_name = Some ''Unit one'',
        item_population = Some 1000\<rparr>]"

section \<open>Quality check engine (app/services/quality_check_service.py)\<close>



datatype QualityCheckStatus = QS_PENDING | QS_RUNNING | QS_PASSED | QS_WARNING | QS_FAILED

text \<open>
  A table as \<open>_load_data\<close> reads it from the file: the column names and the rows of
  cells, a missing cell being \<open>NA\<close>.
\<close>

datatype cell = NA | Num real | Str string












subsection \<open>Example of a quality report\<close>








section \<open>Properties of the workflow state machine\<close>

lemma put_state_states [simp]:
  "workflow_states (put_state d p s st) q t =
     (if q = p \<and> t = s then Some st else workflow_states d q t)"
  by (simp add: put_state_def)

lemma put_state_tables [simp]:
  "data_sources (put_state d p s st) = data_sources d"
  "stratification_configs (put_state d p s st) = stratification_configs d"
  "stratification_results (put_state d p s st) = stratification_results d"
  by (simp_all add: put_state_def)

lemma put_state_same:
  "workflow_states d p s = Some st \<Longrightarrow> put_state d p s st = d"
  by (simp add: put_state_def fun_upd_idem map_upd_triv)

lemma reopen_prereqs_eq:
  "reopen_prereqs d p s t ps =
     (if (s, BLOCKING) \<in> set ps then
        (case workflow_states d p t of
           None \<Rightarrow> Inl (ValueError (''Workflow state for step '' @ step_value t @ '' not found''))
         | Some st \<Rightarrow> Inr (if status st = COMPLETED then put_state d p t (reset st) else d))
      else Inr d)"
proof (induction ps arbitrary: d)
  case Nil
  show ?case by simp
next
  case (Cons a ps)
  obtain q ty where a: "a = (q, ty)" by (cases a)
  show ?case
    unfolding a
    by (auto simp: Cons.IH get_state_def reset_def split: option.splits)
qed

lemma cond_reset_idem [simp]: "cond_reset (cond_reset st) = cond_reset st"
  by (simp add: cond_reset_def reset_def)

lemma reopen_one_states:
  assumes "reopen_prereqs d p s a (PREREQUISITES a) = Inr d1"
  shows "workflow_states d1 q t =
       (if q = p \<and> t = a \<and> blocking_dependent s a
        then map_option cond_reset (workflow_states d p a)
        else workflow_states d q t)"
    and "data_sources d1 = data_sources d"
    and "stratification_configs d1 = stratification_configs d"
    and "stratification_results d1 = stratification_results d"
  using assms
  by (auto simp: reopen_prereqs_eq blocking_dependent_def cond_reset_def
      split: option.splits if_splits)

lemma reopen_cascade_states:
  "reopen_cascade d p s ts = Inr d' \<Longrightarrow>
     workflow_states d' q t =
       (if q = p \<and> t \<in> set ts \<and> blocking_dependent s t
        then map_option cond_reset (workflow_states d p t)
        else workflow_states d q t)
     \<and> data_sources d' = data_sources d
     \<and> stratification_configs d' = stratification_configs d
     \<and> stratification_results d' = stratification_results d"
proof (induction ts arbitrary: d)
  case Nil
  then show ?case by simp
next
  case (Cons a ts)
  from Cons.prems obtain d1 where
    one: "reopen_prereqs d p s a (PREREQUISITES a) = Inr d1"
    and rest: "reopen_cascade d1 p s ts = Inr d'"
    by (auto split: sum.splits)
  note ih = Cons.IH [OF rest]
  note st = reopen_one_states [OF one]
  show ?case
    by (auto simp: ih st option.map_comp comp_def)
qed

lemma reopen_cascade_total:
  "(\<forall>t\<in>set ts. blocking_dependent s t \<longrightarrow> workflow_states d p t \<noteq> None) \<Longrightarrow>
     \<exists>d'. reopen_cascade d p s ts = Inr d'"
proof (induction ts arbitrary: d)
  case Nil
  then show ?case by simp
next
  case (Cons a ts)
  then show ?case
    by (auto simp: reopen_prereqs_eq blocking_dependent_def split: option.splits)
qed

lemma reopen_cascade_id:
  "(\<forall>t\<in>set ts. blocking_dependent s t \<longrightarrow>
      (\<exists>st. workflow_states d p t = Some st \<and> status st \<noteq> COMPLETED)) \<Longrightarrow>
     reopen_cascade d p s ts = Inr d"
  by (induction ts) (auto simp: reopen_prereqs_eq blocking_dependent_def)

lemma not_self_dependent: "\<not> blocking_dependent s s"
  by (cases s) (simp_all add: blocking_dependent_def)

lemma all_steps: "t \<in> set WORKFLOW_STEP_ORDER"
  by (cases t) (simp_all add: WORKFLOW_STEP_ORDER_def)

lemma reset_reset [simp]: "reset (reset st) = reset st"
  by (simp add: reset_def)

lemma status_reset [simp]: "status (reset st) = IN_PROGRESS"
  by (simp add: reset_def)

lemma status_cond_reset [simp]: "status (cond_reset st) \<noteq> COMPLETED"
  by (simp add: cond_reset_def)

lemma reopen_cascade_rows:
  "reopen_cascade d p s ts = Inr d' \<Longrightarrow> t \<in> set ts \<Longrightarrow> blocking_dependent s t \<Longrightarrow>
     workflow_states d p t \<noteq> None"
proof (induction ts arbitrary: d)
  case Nil
  then show ?case by simp
next
  case (Cons a ts)
  from Cons.prems(1) obtain d1 where
    one: "reopen_prereqs d p s a (PREREQUISITES a) = Inr d1"
    and rest: "reopen_cascade d1 p s ts = Inr d'"
    by (auto split: sum.splits)
  show ?case
  proof (cases "t = a")
    case True
    with one Cons.prems(3) show ?thesis
      by (auto simp: reopen_prereqs_eq blocking_dependent_def split: option.splits)
  next
    case False
    with Cons.prems have "t \<in> set ts" by simp
    from Cons.IH [OF rest this Cons.prems(3)] have "workflow_states d1 p t \<noteq> None" .
    then show ?thesis
      by (auto simp: reopen_one_states(1) [OF one] split: if_splits)
  qed
qed

lemma get_step_Inr:
  "workflow_states d p s = Some st \<Longrightarrow> \<exists>r. get_step d p s = Inr r \<and> r_status r = status st
     \<and> r_completion_percentage r = completion_percentage st
     \<and> r_completed_at r = completed_at st \<and> r_step r = s"
  by (simp add: get_step_def split: prod.splits)

lemma reopen_step_char:
  assumes "reopen_step d p s = Inr (d', r)"
  shows "\<exists>st. workflow_states d p s = Some st
     \<and> (\<forall>q t. workflow_states d' q t =
           (if q = p \<and> t = s then Some (reset st)
            else if q = p \<and> blocking_dependent s t
                 then map_option cond_reset (workflow_states d p t)
                 else workflow_states d q t))
     \<and> (\<forall>t. blocking_dependent s t \<longrightarrow> workflow_states d p t \<noteq> None)
     \<and> data_sources d' = data_sources d
     \<and> stratification_configs d' = stratification_configs d
     \<and> stratification_results d' = stratification_results d
     \<and> get_step d' p s = Inr r"
proof -
  from assms obtain st where st: "workflow_states d p s = Some st"
    by (auto simp: reopen_step_def get_state_def split: option.splits)
  let ?d0 = "put_state d p s (reset st)"
  from assms st have casc: "reopen_cascade ?d0 p s WORKFLOW_STEP_ORDER = Inr d'"
    and gs: "get_step d' p s = Inr r"
    by (auto simp: reopen_step_def get_state_def reset_def split: sum.splits)
  note cs = reopen_cascade_states [OF casc]
  have rows: "blocking_dependent s t \<Longrightarrow> workflow_states d p t \<noteq> None" for t
    using reopen_cascade_rows [OF casc all_steps, of t] not_self_dependent [of s]
    by (auto split: if_splits)
  have "workflow_states d' q t =
           (if q = p \<and> t = s then Some (reset st)
            else if q = p \<and> blocking_dependent s t
                 then map_option cond_reset (workflow_states d p t)
                 else workflow_states d q t)" for q t
    using cs [of q t] not_self_dependent [of s] by (auto simp: all_steps)
  with st rows gs cs show ?thesis by auto
qed

lemma reopen_step_total:
  assumes "workflow_states d p s = Some st"
    and "\<forall>t. blocking_dependent s t \<longrightarrow> workflow_states d p t \<noteq> None"
  shows "\<exists>d' r. reopen_step d p s = Inr (d', r)"
proof -
  let ?d0 = "put_state d p s (reset st)"
  have "\<forall>t\<in>set WORKFLOW_STEP_ORDER. blocking_dependent s t \<longrightarrow> workflow_states ?d0 p t \<noteq> None"
    using assms by auto
  from reopen_cascade_total [OF this] obtain d' where
    casc: "reopen_cascade ?d0 p s WORKFLOW_STEP_ORDER = Inr d'" by blast
  have "workflow_states d' p s = Some (reset st)"
    using reopen_cascade_states [OF casc, of p s] not_self_dependent [of s] by simp
  from get_step_Inr [OF this] obtain r where "get_step d' p s = Inr r" by blast
  with casc assms(1) show ?thesis
    by (simp add: reopen_step_def get_state_def reset_def)
qed

lemma reopen_step_twice:
  assumes "reopen_step d p s = Inr (d', r)"
  shows "reopen_step d' p s = Inr (d', r)"
proof -
  from reopen_step_char [OF assms] obtain st where
    st: "workflow_states d p s = Some st"
    and ws: "\<And>q t. workflow_states d' q t =
           (if q = p \<and> t = s then Some (reset st)
            else if q = p \<and> blocking_dependent s t
                 then map_option cond_reset (workflow_states d p t)
                 else workflow_states d q t)"
    and rows: "\<And>t. blocking_dependent s t \<Longrightarrow> workflow_states d p t \<noteq> None"
    and gs: "get_step d' p s = Inr r"
    by blast
  have s': "workflow_states d' p s = Some (reset st)" by (simp add: ws)
  have same: "put_state d' p s (reset st) = d'" by (rule put_state_same [OF s'])
  have "\<forall>t\<in>set WORKFLOW_STEP_ORDER. blocking_dependent s t \<longrightarrow>
      (\<exists>st'. workflow_states d' p t = Some st' \<and> status st' \<noteq> COMPLETED)"
  proof (intro ballI impI)
    fix t assume dep: "blocking_dependent s t"
    then have "t \<noteq> s" using not_self_dependent by auto
    moreover from rows [OF dep] obtain x where "workflow_states d p t = Some x" by auto
    ultimately show "\<exists>st'. workflow_states d' p t = Some st' \<and> status st' \<noteq> COMPLETED"
      using dep by (simp add: ws)
  qed
  from reopen_cascade_id [OF this]
  have "reopen_cascade d' p s WORKFLOW_STEP_ORDER = Inr d'" .
  with s' same gs show ?thesis
    using reset_reset [of st]
    by (simp add: reopen_step_def get_state_def reset_def)
qed

lemma validators_total:
  "workflow_states d p s = Some st \<Longrightarrow> \<exists>es ws. validators s rt d p s = Inr (es, ws)"
  by (cases s)
    (simp_all add: validate_planning_def validate_data_assembly_def
      validate_situation_analysis_def validate_stratification_def validate_generic_def
      get_state_def Let_def)

lemma validate_step_total:
  "workflow_states d p s = Some st \<Longrightarrow> \<exists>d1 v. validate_step rt d p s = Inr (d1, v)"
  using validators_total [of d p s st rt]
  by (auto simp: validate_step_def get_state_def)

lemma validate_step_Inr:
  assumes "validate_step rt d p s = Inr (d1, v)"
  shows "\<exists>st. workflow_states d p s = Some st
     \<and> d1 = put_state d p s (st\<lparr>validation_errors := Some (errors v, warnings v)\<rparr>)
     \<and> is_valid v = (errors v = [])
     \<and> validators s rt d p s = Inr (errors v, warnings v)"
  using assms
  by (auto simp: validate_step_def get_state_def split: sum.splits option.splits prod.splits)

lemma complete_step_invalid:
  assumes "validate_step rt d p s = Inr (d1, v)" and "errors v \<noteq> []"
  shows "complete_step rt d p s u =
           Inl (ValueError (''Step cannot be completed: '' @ join '', '' (errors v)))"
  using assms validate_step_Inr [OF assms(1)]
  by (auto simp: complete_step_def)

lemma complete_step_valid:
  assumes "validate_step rt d p s = Inr (d1, v)" and "errors v = []"
  shows "\<exists>d2 resp st. complete_step rt d p s u = Inr (d2, resp)
     \<and> workflow_states d2 p s = Some st \<and> status st = COMPLETED
     \<and> completion_percentage st = 100 \<and> completed_at st = Some (now rt)
     \<and> completed_by st = Some u \<and> validation_errors st = Some ([], warnings v)
     \<and> r_status resp = COMPLETED \<and> r_completion_percentage resp = 100
     \<and> r_completed_at resp = Some (now rt)"
proof -
  from validate_step_Inr [OF assms(1)] obtain st where
    st: "workflow_states d p s = Some st"
    and d1: "d1 = put_state d p s (st\<lparr>validation_errors := Some (errors v, warnings v)\<rparr>)"
    and valid: "is_valid v = (errors v = [])"
    by blast
  let ?st1 = "st\<lparr>validation_errors := Some (errors v, warnings v)\<rparr>"
  let ?st2 = "?st1\<lparr>status := COMPLETED, completion_percentage := 100,
                 completed_at := Some (now rt), completed_by := Some u\<rparr>"
  let ?d2 = "put_state d1 p s ?st2"
  have s2: "workflow_states ?d2 p s = Some ?st2" by simp
  from get_step_Inr [OF s2] obtain resp where
    resp: "get_step ?d2 p s = Inr resp" "r_status resp = status ?st2"
      "r_completion_percentage resp = completion_percentage ?st2"
      "r_completed_at resp = completed_at ?st2"
    by blast
  have "complete_step rt d p s u = Inr (?d2, resp)"
    using assms valid resp(1) d1 by (simp add: complete_step_def get_state_def)
  with s2 resp assms(2) show ?thesis by simp
qed

lemma complete_step_Inr:
  assumes "complete_step rt d p s u = Inr x"
  shows "\<exists>d1 v. validate_step rt d p s = Inr (d1, v) \<and> errors v = []"
proof -
  from assms obtain d1 v where v: "validate_step rt d p s = Inr (d1, v)"
    by (cases "validate_step rt d p s") (auto simp: complete_step_def)
  with assms have "is_valid v"
    by (auto simp: complete_step_def split: if_splits)
  with validate_step_Inr [OF v] v show ?thesis by auto
qed

lemma validate_no_data_sources:
  assumes "workflow_states d p DATA_ASSEMBLY = Some st"
    and "filter (\<lambda>ds. ds_project_id ds = p) (data_sources d) = []"
  shows "\<exists>d1 v. validate_step rt d p DATA_ASSEMBLY = Inr (d1, v)
           \<and> errors v = [''No data sources uploaded'']"
  using assms
  by (simp add: validate_step_def validate_data_assembly_def get_state_def)

text \<open>
  Claim C1. \<open>complete_step\<close> is a strict gate. It returns a result exactly when
  \<open>validate_step\<close> returns with an empty list of errors. Then the stored row of the
  step is completed at 100 percent with the clock's time and the actor recorded, and so
  says the response. When the validator reports errors, \<open>complete_step\<close> raises the
  \<open>ValueError\<close> whose message joins all of them with a comma and a space. Validation
  returns for every step whose row exists. For a project with no data source (and the row
  of the data assembly step present) completing data assembly raises the error naming
  "No data sources uploaded".
\<close>

theorem complete_step_strict_gate:
  "((\<exists>x. complete_step rt d p s u = Inr x)
       = (\<exists>d1 v. validate_step rt d p s = Inr (d1, v) \<and> errors v = []))
   \<and> (\<forall>d1 v. validate_step rt d p s = Inr (d1, v) \<and> errors v = [] \<longrightarrow>
         (\<exists>d2 resp st. complete_step rt d p s u = Inr (d2, resp)
            \<and> workflow_states d2 p s = Some st \<and> status st = COMPLETED
            \<and> completion_percentage st = 100 \<and> completed_at st = Some (now rt)
            \<and> completed_by st = Some u
            \<and> r_status resp = COMPLETED \<and> r_completion_percentage resp = 100
            \<and> r_completed_at resp = Some (now rt)))
   \<and> (\<forall>d1 v. validate_step rt d p s = Inr (d1, v) \<and> errors v \<noteq> [] \<longrightarrow>
         complete_step rt d p s u =
           Inl (ValueError (''Step cannot be completed: '' @ join '', '' (errors v))))
   \<and> (workflow_states d p s \<noteq> None \<longrightarrow> (\<exists>d1 v. validate_step rt d p s = Inr (d1, v)))
   \<and> (workflow_states d p DATA_ASSEMBLY \<noteq> None
        \<and> filter (\<lambda>ds. ds_project_id ds = p) (data_sources d) = [] \<longrightarrow>
         complete_step rt d p DATA_ASSEMBLY u =
           Inl (ValueError ''Step cannot be completed: No data sources uploaded''))"
proof (intro conjI allI impI)
  show "(\<exists>x. complete_step rt d p s u = Inr x)
       = (\<exists>d1 v. validate_step rt d p s = Inr (d1, v) \<and> errors v = [])"
    using complete_step_Inr complete_step_valid by blast
next
  fix d1 v assume "validate_step rt d p s = Inr (d1, v) \<and> errors v = []"
  then show "\<exists>d2 resp st. complete_step rt d p s u = Inr (d2, resp)
            \<and> workflow_states d2 p s = Some st \<and> status st = COMPLETED
            \<and> completion_percentage st = 100 \<and> completed_at st = Some (now rt)
            \<and> completed_by st = Some u
            \<and> r_status resp = COMPLETED \<and> r_completion_percentage resp = 100
            \<and> r_completed_at resp = Some (now rt)"
    using complete_step_valid [of rt d p s d1 v u] by blast
next
  fix d1 v assume "validate_step rt d p s = Inr (d1, v) \<and> errors v \<noteq> []"
  then show "complete_step rt d p s u =
           Inl (ValueError (''Step cannot be completed: '' @ join '', '' (errors v)))"
    using complete_step_invalid by blast
next
  assume "workflow_states d p s \<noteq> None"
  then show "\<exists>d1 v. validate_step rt d p s = Inr (d1, v)"
    using validate_step_total by blast
next
  assume a: "workflow_states d p DATA_ASSEMBLY \<noteq> None
        \<and> filter (\<lambda>ds. ds_project_id ds = p) (data_sources d) = []"
  then obtain st where "workflow_states d p DATA_ASSEMBLY = Some st" by auto
  from validate_no_data_sources [OF this, of rt] a obtain d1 v where
    "validate_step rt d p DATA_ASSEMBLY = Inr (d1, v)" "errors v = [''No data sources uploaded'']"
    by blast
  from complete_step_invalid [OF this(1), of u] this(2)
  show "complete_step rt d p DATA_ASSEMBLY u =
           Inl (ValueError ''Step cannot be completed: No data sources uploaded'')"
    by simp
qed

theorem complete_step_strict_gate_witness:
  "(\<exists>x. complete_step example_runtime planned_db 3 PLANNING_PREPAREDNESS 7 = Inr x)
   \<and> complete_step example_runtime planned_db 3 DATA_ASSEMBLY 7 =
       Inl (ValueError ''Step cannot be completed: No data sources uploaded'')"
proof -
  have v: "\<exists>d1 v. validate_step example_runtime planned_db 3 PLANNING_PREPAREDNESS = Inr (d1, v)
             \<and> errors v = []"
    by (simp add: validate_step_def validate_planning_def get_state_def planned_db_def
        initialize_workflow_def empty_db_def state_data_def get_truthy_def)
  have r: "workflow_states planned_db 3 DATA_ASSEMBLY \<noteq> None
        \<and> filter (\<lambda>ds. ds_project_id ds = 3) (data_sources planned_db) = []"
    by (simp add: planned_db_def initialize_workflow_def empty_db_def)
  show ?thesis
    using v r complete_step_strict_gate [of example_runtime planned_db 3 PLANNING_PREPAREDNESS 7]
      complete_step_strict_gate [of example_runtime planned_db 3 DATA_ASSEMBLY 7]
    by simp
qed

text \<open>
  Claim C2. When \<open>reopen_step\<close> returns, the target row is back to in progress with
  completion time and completer cleared; every other step that lists the target as a
  blocking prerequisite and was completed is reset the same way; every other row of the
  project is unchanged, in particular the row of a dependent of a dependent, whatever its
  status; and no other project is touched.
\<close>

theorem reopen_step_cascades_one_level:
  "reopen_step d p s = Inr (d', r) \<Longrightarrow>
     (\<exists>st. workflow_states d p s = Some st
        \<and> workflow_states d' p s =
            Some (st\<lparr>status := IN_PROGRESS, completed_at := None, completed_by := None\<rparr>))
   \<and> (\<forall>t st. t \<noteq> s \<and> blocking_dependent s t \<and> workflow_states d p t = Some st
         \<and> status st = COMPLETED \<longrightarrow>
         workflow_states d' p t =
           Some (st\<lparr>status := IN_PROGRESS, completed_at := None, completed_by := None\<rparr>))
   \<and> (\<forall>t. t \<noteq> s \<and> \<not> (blocking_dependent s t
              \<and> (\<exists>st. workflow_states d p t = Some st \<and> status st = COMPLETED)) \<longrightarrow>
         workflow_states d' p t = workflow_states d p t)
   \<and> (\<forall>u t. blocking_dependent s u \<and> blocking_dependent u t \<longrightarrow>
         workflow_states d' p t = workflow_states d p t)
   \<and> (\<forall>q. q \<noteq> p \<longrightarrow> workflow_states d' q = workflow_states d q)"
proof -
  assume a: "reopen_step d p s = Inr (d', r)"
  from reopen_step_char [OF a] obtain st where
    st: "workflow_states d p s = Some st"
    and ws: "\<And>q t. workflow_states d' q t =
           (if q = p \<and> t = s then Some (reset st)
            else if q = p \<and> blocking_dependent s t
                 then map_option cond_reset (workflow_states d p t)
                 else workflow_states d q t)"
    by blast
  have two: "blocking_dependent s u \<Longrightarrow> blocking_dependent u t \<Longrightarrow>
      t \<noteq> s \<and> \<not> blocking_dependent s t" for u t
    by (cases s; cases u; cases t) (simp_all add: blocking_dependent_def)
  show ?thesis
  proof (intro conjI allI impI)
    show "\<exists>st. workflow_states d p s = Some st
        \<and> workflow_states d' p s =
            Some (st\<lparr>status := IN_PROGRESS, completed_at := None, completed_by := None\<rparr>)"
      using st by (simp add: ws reset_def)
  next
    fix t x
    assume "t \<noteq> s \<and> blocking_dependent s t \<and> workflow_states d p t = Some x
         \<and> status x = COMPLETED"
    then show "workflow_states d' p t =
           Some (x\<lparr>status := IN_PROGRESS, completed_at := None, completed_by := None\<rparr>)"
      by (simp add: ws cond_reset_def reset_def)
  next
    fix t
    assume "t \<noteq> s \<and> \<not> (blocking_dependent s t
              \<and> (\<exists>st. workflow_states d p t = Some st \<and> status st = COMPLETED))"
    then show "workflow_states d' p t = workflow_states d p t"
      by (cases "workflow_states d p t") (auto simp: ws cond_reset_def)
  next
    fix u t
    assume "blocking_dependent s u \<and> blocking_dependent u t"
    with two [of u t] show "workflow_states d' p t = workflow_states d p t"
      by (simp add: ws)
  next
    fix q assume "q \<noteq> p"
    then show "workflow_states d' q = workflow_states d q"
      by (intro ext) (simp add: ws)
  qed
qed

lemma three_done_states:
  "workflow_states three_done_db 3 t =
     Some (if t = PLANNING_PREPAREDNESS \<or> t = DATA_ASSEMBLY \<or> t = SITUATION_ANALYSIS
           then completed_state
           else \<lparr>status = NOT_STARTED, completion_percentage = 0, step_notes = None,
                  data = None, validation_errors = None, completed_at = None,
                  completed_by = None\<rparr>)"
  by (simp add: three_done_db_def initialize_workflow_def empty_db_def)

theorem reopen_step_cascades_one_level_witness:
  "\<exists>d' r. reopen_step three_done_db 3 PLANNING_PREPAREDNESS = Inr (d', r)
     \<and> map_option status (workflow_states d' 3 PLANNING_PREPAREDNESS) = Some IN_PROGRESS
     \<and> map_option completed_at (workflow_states d' 3 PLANNING_PREPAREDNESS) = Some None
     \<and> map_option status (workflow_states d' 3 DATA_ASSEMBLY) = Some IN_PROGRESS
     \<and> map_option status (workflow_states d' 3 SITUATION_ANALYSIS) = Some COMPLETED"
proof -
  have "\<exists>d' r. reopen_step three_done_db 3 PLANNING_PREPAREDNESS = Inr (d', r)"
    by (rule reopen_step_total [where st = completed_state])
      (simp_all add: three_done_states)
  then obtain d' r where
    run: "reopen_step three_done_db 3 PLANNING_PREPAREDNESS = Inr (d', r)" by blast
  have dep: "blocking_dependent PLANNING_PREPAREDNESS DATA_ASSEMBLY"
    "blocking_dependent DATA_ASSEMBLY SITUATION_ANALYSIS"
    by (simp_all add: blocking_dependent_def)
  from reopen_step_cascades_one_level [OF run] dep
  have "map_option status (workflow_states d' 3 PLANNING_PREPAREDNESS) = Some IN_PROGRESS
     \<and> map_option completed_at (workflow_states d' 3 PLANNING_PREPAREDNESS) = Some None
     \<and> map_option status (workflow_states d' 3 DATA_ASSEMBLY) = Some IN_PROGRESS
     \<and> map_option status (workflow_states d' 3 SITUATION_ANALYSIS) = Some COMPLETED"
    by (auto simp: three_done_states completed_state_def)
  with run show ?thesis by blast
qed

text \<open>
  Claim C8. \<open>reopen_step\<close> is idempotent: run on the database a first run returned, it
  returns the same database and the same response. A target that was already in progress
  stays so, with cleared completion metadata, and no row other than the target's and its
  direct blocking dependents' changes, in any table.
\<close>

theorem reopen_step_idempotent:
  "reopen_step d p s = Inr (d', r) \<Longrightarrow>
     reopen_step d' p s = Inr (d', r)
   \<and> (\<forall>st. workflow_states d p s = Some st \<and> status st = IN_PROGRESS \<longrightarrow>
         workflow_states d' p s = Some (st\<lparr>completed_at := None, completed_by := None\<rparr>))
   \<and> (\<forall>t. t \<noteq> s \<and> \<not> blocking_dependent s t \<longrightarrow>
         workflow_states d' p t = workflow_states d p t)
   \<and> (\<forall>q. q \<noteq> p \<longrightarrow> workflow_states d' q = workflow_states d q)
   \<and> data_sources d' = data_sources d
   \<and> stratification_configs d' = stratification_configs d
   \<and> stratification_results d' = stratification_results d"
proof -
  assume a: "reopen_step d p s = Inr (d', r)"
  from reopen_step_char [OF a] obtain st where
    st: "workflow_states d p s = Some st"
    and ws: "\<And>q t. workflow_states d' q t =
           (if q = p \<and> t = s then Some (reset st)
            else if q = p \<and> blocking_dependent s t
                 then map_option cond_reset (workflow_states d p t)
                 else workflow_states d q t)"
    and tabs: "data_sources d' = data_sources d"
      "stratification_configs d' = stratification_configs d"
      "stratification_results d' = stratification_results d"
    by blast
  have "\<forall>x. workflow_states d p s = Some x \<and> status x = IN_PROGRESS \<longrightarrow>
         workflow_states d' p s = Some (x\<lparr>completed_at := None, completed_by := None\<rparr>)"
    using st by (auto simp: ws reset_def)
  moreover have "\<forall>q. q \<noteq> p \<longrightarrow> workflow_states d' q = workflow_states d q"
    by (intro allI impI ext) (simp add: ws)
  ultimately show ?thesis
    using reopen_step_twice [OF a] tabs by (simp add: ws)
qed

theorem reopen_step_idempotent_witness:
  "\<exists>d' r. reopen_step three_done_db 3 PLANNING_PREPAREDNESS = Inr (d', r)
     \<and> reopen_step d' 3 PLANNING_PREPAREDNESS = Inr (d', r)
     \<and> workflow_states d' 3 STRATIFICATION = workflow_states three_done_db 3 STRATIFICATION"
proof -
  have "\<exists>d' r. reopen_step three_done_db 3 PLANNING_PREPAREDNESS = Inr (d', r)"
    by (rule reopen_step_total [where st = completed_state])
      (simp_all add: three_done_states)
  then obtain d' r where
    run: "reopen_step three_done_db 3 PLANNING_PREPAREDNESS = Inr (d', r)" by blast
  have "\<not> blocking_dependent PLANNING_PREPAREDNESS STRATIFICATION"
    by (simp add: blocking_dependent_def)
  with reopen_step_idempotent [OF run] run show ?thesis by auto
qed

text \<open>
  Claim C9. \<open>reopen_step\<close> asks nothing of the target's stored status: whenever the
  target's row exists (and so do the rows of its direct blocking dependents) it returns,
  the target is in progress with completion time and completer cleared, whatever it was
  before, and every completed direct blocking dependent is reset.
\<close>

theorem reopen_step_no_precondition:
  "workflow_states d p s = Some st \<Longrightarrow>
   (\<forall>t. blocking_dependent s t \<longrightarrow> workflow_states d p t \<noteq> None) \<Longrightarrow>
     \<exists>d' r. reopen_step d p s = Inr (d', r)
       \<and> workflow_states d' p s =
           Some (st\<lparr>status := IN_PROGRESS, completed_at := None, completed_by := None\<rparr>)
       \<and> r_status r = IN_PROGRESS \<and> r_completed_at r = None
       \<and> (\<forall>t x. blocking_dependent s t \<and> workflow_states d p t = Some x
              \<and> status x = COMPLETED \<longrightarrow>
            workflow_states d' p t =
              Some (x\<lparr>status := IN_PROGRESS, completed_at := None, completed_by := None\<rparr>))"
proof -
  assume st: "workflow_states d p s = Some st"
    and rows: "\<forall>t. blocking_dependent s t \<longrightarrow> workflow_states d p t \<noteq> None"
  from reopen_step_total [OF st rows] obtain d' r where
    run: "reopen_step d p s = Inr (d', r)" by blast
  from reopen_step_char [OF run] st have
    ws: "\<And>q t. workflow_states d' q t =
           (if q = p \<and> t = s then Some (reset st)
            else if q = p \<and> blocking_dependent s t
                 then map_option cond_reset (workflow_states d p t)
                 else workflow_states d q t)"
    and gs: "get_step d' p s = Inr r"
    by auto
  have s': "workflow_states d' p s = Some (reset st)" by (simp add: ws)
  from get_step_Inr [OF s'] gs have "r_status r = IN_PROGRESS" "r_completed_at r = None"
    by (auto simp: reset_def)
  moreover have "\<forall>t x. blocking_dependent s t \<and> workflow_states d p t = Some x
              \<and> status x = COMPLETED \<longrightarrow>
            workflow_states d' p t =
              Some (x\<lparr>status := IN_PROGRESS, completed_at := None, completed_by := None\<rparr>)"
    using not_self_dependent [of s] by (auto simp: ws cond_reset_def reset_def)
  ultimately show ?thesis using run s' by (auto simp: reset_def)
qed

theorem reopen_step_no_precondition_witness:
  "\<exists>d' r. reopen_step (initialize_workflow empty_db 3) 3 STRATIFICATION = Inr (d', r)
     \<and> map_option status (workflow_states d' 3 STRATIFICATION) = Some IN_PROGRESS
     \<and> r_status r = IN_PROGRESS"
proof -
  let ?st = "\<lparr>status = NOT_STARTED, completion_percentage = 0, step_notes = None,
                  data = None, validation_errors = None, completed_at = None,
                  completed_by = None\<rparr>"
  have "workflow_states (initialize_workflow empty_db 3) 3 STRATIFICATION = Some ?st"
    and "\<forall>t. blocking_dependent STRATIFICATION t \<longrightarrow>
           workflow_states (initialize_workflow empty_db 3) 3 t \<noteq> None"
    by (simp_all add: initialize_workflow_def empty_db_def)
  from reopen_step_no_precondition [OF this] show ?thesis by auto
qed

section \<open>Properties of the stratification engine\<close>

lemma loop_rank_le: "risk_rank (assign_risk_level_loop v ths ls) \<le> 3"
proof -
  have "risk_rank l \<le> 3" for l by (cases l) simp_all
  then show ?thesis by simp
qed

lemma loop_in: "assign_risk_level_loop v ths ls \<in> set ls \<or> assign_risk_level_loop v ths ls = HIGH"
  by (induction ls) (auto split: option.splits)

lemma loop_rank_ge:
  "\<forall>l\<in>set ls. r \<le> risk_rank l \<Longrightarrow> r \<le> 3 \<Longrightarrow> r \<le> risk_rank (assign_risk_level_loop v ths ls)"
  using loop_in [of v ths ls] by auto

lemma loop_monotone:
  "sorted (map risk_rank ls) \<Longrightarrow> chain a (bands_of ths ls) b \<Longrightarrow> a \<le> v1 \<Longrightarrow> v1 \<le> v2 \<Longrightarrow>
     risk_rank (assign_risk_level_loop v1 ths ls) \<le> risk_rank (assign_risk_level_loop v2 ths ls)"
proof (induction ls arbitrary: a)
  case Nil
  then show ?case by simp
next
  case (Cons l ls)
  have srt: "sorted (map risk_rank ls)" and ge: "\<forall>x\<in>set ls. risk_rank l \<le> risk_rank x"
    using Cons.prems(1) by auto
  show ?case
  proof (cases "ths (risk_value l)")
    case None
    with Cons.prems have "chain a (bands_of ths ls) b"
      by (simp add: bands_of_def map_filter_simps)
    from Cons.IH [OF srt this Cons.prems(3,4)] None show ?thesis by simp
  next
    case (Some t)
    with Cons.prems have t: "min_value t = a" and ch: "chain (max_value t) (bands_of ths ls) b"
      by (simp_all add: bands_of_def map_filter_simps)
    show ?thesis
    proof (cases "v1 < max_value t")
      case True
      have "risk_rank l \<le> 3" by (cases l) simp_all
      from loop_rank_ge [OF ge this]
      have "risk_rank l \<le> risk_rank (assign_risk_level_loop v2 ths ls)" .
      with True Some t Cons.prems(3) show ?thesis by simp
    next
      case False
      then have "max_value t \<le> v1" by simp
      from Cons.IH [OF srt ch this Cons.prems(4)] False Some Cons.prems(4)
      show ?thesis by simp
    qed
  qed
qed

lemma loop_find:
  "assign_risk_level_loop v ths ls =
     (case find (\<lambda>level. case ths (risk_value level) of
                      None \<Rightarrow> False
                    | Some t \<Rightarrow> min_value t \<le> v \<and> v < max_value t) ls of
        None \<Rightarrow> HIGH | Some l \<Rightarrow> l)"
  by (induction ls) (auto split: option.splits)

lemma example_covers: "covers_0_100 example_thresholds"
  by (simp add: covers_0_100_def bands_of_def map_filter_simps example_thresholds_def)

text \<open>
  Claim C5, as amended. For every value and every dictionary of bands,
  \<open>assign_risk_level\<close> returns the level of the first band, in the order very low, low,
  moderate, high, whose half-open interval holds the value, and high when no band does.
  When the bands cover \<open>[0, 100)\<close> contiguously, the level does not decrease as the value
  grows from any value that is not negative.
\<close>

theorem assign_risk_level_monotone:
  "assign_risk_level v ths = (case first_band v ths of None \<Rightarrow> HIGH | Some level \<Rightarrow> level)
   \<and> (covers_0_100 ths \<and> 0 \<le> v \<and> v \<le> v' \<longrightarrow>
        risk_rank (assign_risk_level v ths) \<le> risk_rank (assign_risk_level v' ths))"
proof (intro conjI impI)
  show "assign_risk_level v ths = (case first_band v ths of None \<Rightarrow> HIGH | Some level \<Rightarrow> level)"
    unfolding assign_risk_level_def first_band_def by (rule loop_find)
next
  assume a: "covers_0_100 ths \<and> 0 \<le> v \<and> v \<le> v'"
  have "sorted (map risk_rank [VERY_LOW, LOW, MODERATE, HIGH])" by simp
  moreover from a have "chain 0 (bands_of ths [VERY_LOW, LOW, MODERATE, HIGH]) 100"
    by (simp only: covers_0_100_def)
  ultimately show "risk_rank (assign_risk_level v ths) \<le> risk_rank (assign_risk_level v' ths)"
    unfolding assign_risk_level_def using a by (intro loop_monotone) blast+
qed

theorem assign_risk_level_monotone_witness:
  "covers_0_100 example_thresholds \<and> (0::real) \<le> 5 \<and> (5::real) \<le> 20
   \<and> assign_risk_level 5 example_thresholds = LOW
   \<and> assign_risk_level 20 example_thresholds = MODERATE
   \<and> risk_rank (assign_risk_level 5 example_thresholds)
       \<le> risk_rank (assign_risk_level 20 example_thresholds)"
proof -
  have "assign_risk_level 5 example_thresholds = LOW"
    "assign_risk_level 20 example_thresholds = MODERATE"
    by (simp_all add: assign_risk_level_def example_thresholds_def)
  with example_covers assign_risk_level_monotone [of 5 example_thresholds 20]
  show ?thesis by simp
qed

text \<open>
  The claim as stated, for every metric value, fails below zero: no band holds \<open>-1\<close>, so
  it falls through to high, while \<open>0\<close> is very low.
\<close>

theorem assign_risk_level_negative_counterexample:
  "covers_0_100 example_thresholds \<and> (-1::real) \<le> 0
   \<and> assign_risk_level (-1) example_thresholds = HIGH
   \<and> assign_risk_level 0 example_thresholds = VERY_LOW
   \<and> \<not> risk_rank (assign_risk_level (-1) example_thresholds)
         \<le> risk_rank (assign_risk_level 0 example_thresholds)"
proof -
  have "assign_risk_level (-1) example_thresholds = HIGH"
    "assign_risk_level 0 example_thresholds = VERY_LOW"
    by (simp_all add: assign_risk_level_def example_thresholds_def)
  with example_covers show ?thesis by simp
qed

text \<open>
  Claim C10. The eligible interventions depend on the risk level only: very low gives
  CM; low gives CM, ITN and IPTp; moderate and high both give CM, ITN, IRS, IPTp, SMC and
  VACCINE. CM is eligible at every level, the set of a level is contained in the set of
  any higher level, and the metric and the unit data do not change the result.
\<close>

theorem eligible_interventions_by_risk:
  "set (determine_eligible_interventions VERY_LOW metric unit_data) = {''CM''}
   \<and> set (determine_eligible_interventions LOW metric unit_data) = {''CM'', ''ITN'', ''IPTp''}
   \<and> set (determine_eligible_interventions MODERATE metric unit_data)
        = {''CM'', ''ITN'', ''IRS'', ''IPTp'', ''SMC'', ''VACCINE''}
   \<and> set (determine_eligible_interventions HIGH metric unit_data)
        = {''CM'', ''ITN'', ''IRS'', ''IPTp'', ''SMC'', ''VACCINE''}
   \<and> ''CM'' \<in> set (determine_eligible_interventions risk_level metric unit_data)
   \<and> (risk_rank r1 \<le> risk_rank r2 \<longrightarrow>
        set (determine_eligible_interventions r1 metric unit_data)
          \<subseteq> set (determine_eligible_interventions r2 metric' unit_data'))
   \<and> determine_eligible_interventions risk_level metric unit_data
        = determine_eligible_interventions risk_level metric' unit_data'"
proof -
  have mono: "risk_rank r1 \<le> risk_rank r2 \<longrightarrow>
        set (determine_eligible_interventions r1 metric unit_data)
          \<subseteq> set (determine_eligible_interventions r2 metric' unit_data')"
    by (cases r1; cases r2) (simp_all add: determine_eligible_interventions_def)
  show ?thesis
    using mono by (auto simp: determine_eligible_interventions_def)
qed

theorem eligible_interventions_by_risk_witness:
  "risk_rank LOW \<le> risk_rank HIGH
   \<and> set (determine_eligible_interventions LOW PFPR ())
       \<subseteq> set (determine_eligible_interventions HIGH EIR ())
   \<and> determine_eligible_interventions LOW PFPR () = [''CM'', ''ITN'', ''IPTp'']"
proof -
  have l: "determine_eligible_interventions LOW PFPR () = [''CM'', ''ITN'', ''IPTp'']"
    by (simp add: determine_eligible_interventions_def)
  have r: "risk_rank LOW \<le> risk_rank HIGH" by simp
  have "risk_rank LOW \<le> risk_rank HIGH \<longrightarrow>
        set (determine_eligible_interventions LOW PFPR ())
          \<subseteq> set (determine_eligible_interventions HIGH EIR ())"
    using eligible_interventions_by_risk [where ?r1.0 = LOW and ?r2.0 = HIGH and metric = PFPR
        and metric' = EIR and unit_data = "()" and unit_data' = "()"]
    by blast
  with l r show ?thesis by blast
qed

section \<open>Properties of the forecast engine\<close>




















section \<open>Properties of the costing engine\<close>

lemma select_loop_le:
  "snd acc \<le> b \<Longrightarrow> snd (select_loop b xs acc) \<le> b"
proof (induction xs arbitrary: acc)
  case Nil
  then show ?case by (cases acc) simp
next
  case (Cons x xs)
  then show ?case by (cases acc) simp
qed

lemma default_divisors:
  "ic_get DEFAULT_UNIT_COSTS ''itn'' ''replacement_years'' 3 = 3"
  "ic_get DEFAULT_UNIT_COSTS ''irs'' ''persons_per_structure'' 5 = 5"
  by (simp_all add: ic_get_def DEFAULT_UNIT_COSTS_def)

lemma default_cost_no_error:
  "calculate_intervention_cost code pop DEFAULT_UNIT_COSTS 5 \<noteq> Inl e"
  by (simp add: calculate_intervention_cost_def Let_def default_divisors)

lemma default_cost_total:
  "\<exists>c. calculate_intervention_cost code pop DEFAULT_UNIT_COSTS 5 = Inr c"
  using default_cost_no_error [of code pop]
  by (cases "calculate_intervention_cost code pop DEFAULT_UNIT_COSTS 5") auto

lemma assigned_pairs_append:
  "assigned_pairs (append_intervention optimized k code) = insert (k, code) (assigned_pairs optimized)"
proof (cases "k \<in> fst ` set optimized")
  case False
  then show ?thesis
    by (auto simp: assigned_pairs_def append_intervention_def)
next
  case True
  then obtain codes0 where c0: "(k, codes0) \<in> set optimized" by auto
  let ?f = "\<lambda>(k', codes). if k' = k then (k', codes @ [code]) else (k', codes)"
  have eq: "append_intervention optimized k code = map ?f optimized"
    using True by (simp add: append_intervention_def)
  show ?thesis
  proof (intro set_eqI iffI)
    fix x assume "x \<in> assigned_pairs (append_intervention optimized k code)"
    then obtain k' c' codes where x: "x = (k', c')"
      and m: "(k', codes) \<in> set (map ?f optimized)" and c: "c' \<in> set codes"
      unfolding eq assigned_pairs_def by blast
    from m obtain k0 cs0 where e: "(k0, cs0) \<in> set optimized" and f: "?f (k0, cs0) = (k', codes)"
      by auto
    show "x \<in> insert (k, code) (assigned_pairs optimized)"
    proof (cases "k0 = k")
      case True
      with f have "k' = k" "codes = cs0 @ [code]" by auto
      with c e True x show ?thesis by (auto simp: assigned_pairs_def)
    next
      case False
      with f have "k' = k0" "codes = cs0" by auto
      with c e x show ?thesis by (auto simp: assigned_pairs_def)
    qed
  next
    fix x assume a: "x \<in> insert (k, code) (assigned_pairs optimized)"
    show "x \<in> assigned_pairs (append_intervention optimized k code)"
    proof (cases "x = (k, code)")
      case True
      from c0 have "(k, codes0 @ [code]) \<in> set (map ?f optimized)" by (force simp: image_iff)
      then show ?thesis unfolding eq assigned_pairs_def True by force
    next
      case False
      with a obtain k' c' codes where x: "x = (k', c')"
        and m: "(k', codes) \<in> set optimized" and c: "c' \<in> set codes"
        unfolding assigned_pairs_def by blast
      have "\<exists>cs. (k', cs) \<in> set (map ?f optimized) \<and> c' \<in> set cs"
      proof (cases "k' = k")
        case True
        with m have "(k', codes @ [code]) \<in> set (map ?f optimized)" by (force simp: image_iff)
        moreover from c have "c' \<in> set (codes @ [code])" by simp
        ultimately show ?thesis by blast
      next
        case False
        with m have "(k', codes) \<in> set (map ?f optimized)" by (force simp: image_iff)
        with c show ?thesis by blast
      qed
      then show ?thesis unfolding eq assigned_pairs_def x by blast
    qed
  qed
qed

lemma select_loop_pairs:
  "assigned_pairs (fst (select_loop b xs acc))
     \<subseteq> assigned_pairs (fst acc) \<union> (\<lambda>x. (ce_unit_key x, ce_intervention x)) ` set xs"
proof (induction xs arbitrary: acc)
  case Nil
  then show ?case by (cases acc) simp
next
  case (Cons x xs)
  obtain opt rc where acc: "acc = (opt, rc)" by (cases acc)
  show ?case
  proof (cases "rc + ce_cost x \<le> b")
    case True
    with Cons.IH [of "(append_intervention opt (ce_unit_key x) (ce_intervention x), rc + ce_cost x)"]
    show ?thesis by (auto simp: acc assigned_pairs_append)
  next
    case False
    with Cons.IH [of "(opt, rc)"] show ?thesis by (auto simp: acc)
  qed
qed

lemma ce_unit_Inr:
  "\<exists>items. ce_unit k pop codes = Inr items
     \<and> map (\<lambda>x. (ce_unit_key x, ce_intervention x)) items = map (Pair k) codes
     \<and> (\<forall>x\<in>set items.
           calculate_intervention_cost (ce_intervention x) pop DEFAULT_UNIT_COSTS 5 = Inr (ce_cost x)
         \<and> ce_effect x = estimate_effect (ce_intervention x) pop
         \<and> ce_icer x = (if 0 < ce_effect x then Some (ce_cost x / ce_effect x) else None))"
proof (induction codes)
  case Nil
  then show ?case by simp
next
  case (Cons code codes)
  from default_cost_total [of code pop] obtain c where
    "calculate_intervention_cost code pop DEFAULT_UNIT_COSTS 5 = Inr c" by blast
  with Cons show ?case by auto
qed

lemma ce_data_Inr:
  "\<exists>items. ce_data pm assignment = Inr items
     \<and> map (\<lambda>x. (ce_unit_key x, ce_intervention x)) items
         = concat (map (\<lambda>(k, codes). map (Pair k) codes) assignment)
     \<and> (\<forall>x\<in>set items.
           ce_cost x = pair_cost pm (ce_unit_key x) (ce_intervention x)
         \<and> ce_effect x = estimate_effect (ce_intervention x) (unit_population pm (ce_unit_key x))
         \<and> ce_icer x = (if 0 < ce_effect x then Some (ce_cost x / ce_effect x) else None))"
proof (induction assignment)
  case Nil
  then show ?case by simp
next
  case (Cons a assignment)
  obtain k codes where a: "a = (k, codes)" by (cases a)
  from ce_unit_Inr [of k "unit_population pm k" codes] obtain items where
    u: "ce_unit k (unit_population pm k) codes = Inr items"
    and um: "map (\<lambda>x. (ce_unit_key x, ce_intervention x)) items = map (Pair k) codes"
    and up: "\<forall>x\<in>set items.
           calculate_intervention_cost (ce_intervention x) (unit_population pm k)
             DEFAULT_UNIT_COSTS 5 = Inr (ce_cost x)
         \<and> ce_effect x = estimate_effect (ce_intervention x) (unit_population pm k)
         \<and> ce_icer x = (if 0 < ce_effect x then Some (ce_cost x / ce_effect x) else None)"
    by blast
  have key: "ce_unit_key x = k" if "x \<in> set items" for x
  proof -
    from that have "(ce_unit_key x, ce_intervention x) \<in> set (map (\<lambda>x. (ce_unit_key x, ce_intervention x)) items)"
      by force
    then show ?thesis unfolding um by auto
  qed
  from Cons obtain others where
    r: "ce_data pm assignment = Inr others"
    and rm: "map (\<lambda>x. (ce_unit_key x, ce_intervention x)) others
         = concat (map (\<lambda>(k, codes). map (Pair k) codes) assignment)"
    and rp: "\<forall>x\<in>set others.
           ce_cost x = pair_cost pm (ce_unit_key x) (ce_intervention x)
         \<and> ce_effect x = estimate_effect (ce_intervention x) (unit_population pm (ce_unit_key x))
         \<and> ce_icer x = (if 0 < ce_effect x then Some (ce_cost x / ce_effect x) else None)"
    by blast
  have "\<forall>x\<in>set items.
           ce_cost x = pair_cost pm (ce_unit_key x) (ce_intervention x)
         \<and> ce_effect x = estimate_effect (ce_intervention x) (unit_population pm (ce_unit_key x))
         \<and> ce_icer x = (if 0 < ce_effect x then Some (ce_cost x / ce_effect x) else None)"
    using up key by (auto simp: pair_cost_def)
  with u um r rm rp show ?case by (auto simp: a)
qed

lemma pairs_of_items:
  "set (concat (map (\<lambda>(k, codes). map (Pair k) codes) assignment)) = assigned_pairs assignment"
  by (auto simp: assigned_pairs_def)

lemma pop_map_loop_total:
  "\<forall>item\<in>set population_data. admin_unit_name item \<noteq> None \<Longrightarrow>
     \<exists>pm. pop_map_loop m population_data = Inr pm"
  by (induction population_data arbitrary: m) auto

lemma icer_key_sorted:
  assumes "sorted (map icer_key ys)" and "i < j" and "j < length ys"
    and "ce_icer (ys ! j) = Some a"
  shows "\<exists>b. ce_icer (ys ! i) = Some b \<and> b \<le> a"
proof -
  from assms(1-3) have "icer_key (ys ! i) \<le> icer_key (ys ! j)"
    by (simp add: sorted_iff_nth_mono)
  with assms(4) show ?thesis
    by (cases "ce_icer (ys ! i)") (auto simp: icer_key_def less_eq_prod_def)
qed

lemma append_keys_distinct:
  "distinct (map fst optimized) \<Longrightarrow> distinct (map fst (append_intervention optimized k code))"
proof (cases "k \<in> fst ` set optimized")
  case True
  assume d: "distinct (map fst optimized)"
  let ?f = "\<lambda>(k', codes). if k' = k then (k', codes @ [code]) else (k', codes)"
  have m: "map fst (map ?f optimized) = map fst optimized"
    by (induction optimized) auto
  have e: "append_intervention optimized k code = map ?f optimized"
    using True by (simp add: append_intervention_def)
  show ?thesis unfolding e m by (rule d)
next
  case False
  assume "distinct (map fst optimized)"
  with False show ?thesis by (simp add: append_intervention_def)
qed

lemma map_other_keys:
  "k \<notin> fst ` set optimized \<Longrightarrow>
     map (\<lambda>(k', codes). if k' = k then (k', codes @ [code]) else (k', codes)) optimized = optimized"
  by (induction optimized) auto

lemma assignment_cost_map:
  "distinct (map fst optimized) \<Longrightarrow> k \<in> fst ` set optimized \<Longrightarrow>
     assignment_cost pm
       (map (\<lambda>(k', codes). if k' = k then (k', codes @ [code]) else (k', codes)) optimized)
     = assignment_cost pm optimized + pair_cost pm k code"
proof (induction optimized)
  case Nil
  then show ?case by simp
next
  case (Cons a optimized)
  obtain k0 cs0 where a: "a = (k0, cs0)" by (cases a)
  show ?case
  proof (cases "k0 = k")
    case True
    with Cons.prems have "k \<notin> fst ` set optimized" by (auto simp: a)
    from map_other_keys [OF this, of code] True show ?thesis
      by (simp add: a assignment_cost_def)
  next
    case False
    with Cons.prems have "k \<in> fst ` set optimized" "distinct (map fst optimized)"
      by (auto simp: a)
    from Cons.IH [OF this(2,1)] False show ?thesis
      by (simp add: a assignment_cost_def)
  qed
qed

lemma assignment_cost_append:
  "distinct (map fst optimized) \<Longrightarrow>
     assignment_cost pm (append_intervention optimized k code)
       = assignment_cost pm optimized + pair_cost pm k code"
proof (cases "k \<in> fst ` set optimized")
  case True
  assume "distinct (map fst optimized)"
  from assignment_cost_map [OF this True] True show ?thesis
    by (simp add: append_intervention_def)
next
  case False
  then show ?thesis by (simp add: append_intervention_def assignment_cost_def)
qed

lemma select_loop_cost:
  "distinct (map fst (fst acc)) \<Longrightarrow> snd acc = assignment_cost pm (fst acc) \<Longrightarrow>
   \<forall>x\<in>set xs. ce_cost x = pair_cost pm (ce_unit_key x) (ce_intervention x) \<Longrightarrow>
     snd (select_loop b xs acc) = assignment_cost pm (fst (select_loop b xs acc))"
proof (induction xs arbitrary: acc)
  case Nil
  then show ?case by (cases acc) simp
next
  case (Cons x xs)
  obtain opt rc where acc: "acc = (opt, rc)" by (cases acc)
  show ?case
  proof (cases "rc + ce_cost x \<le> b")
    case True
    let ?acc' = "(append_intervention opt (ce_unit_key x) (ce_intervention x), rc + ce_cost x)"
    have "distinct (map fst (fst ?acc'))"
      using Cons.prems(1) by (simp add: acc append_keys_distinct)
    moreover have "snd ?acc' = assignment_cost pm (fst ?acc')"
      using Cons.prems by (simp add: acc assignment_cost_append)
    moreover have "\<forall>y\<in>set xs. ce_cost y = pair_cost pm (ce_unit_key y) (ce_intervention y)"
      using Cons.prems(3) by simp
    ultimately have "snd (select_loop b xs ?acc') = assignment_cost pm (fst (select_loop b xs ?acc'))"
      by (rule Cons.IH)
    with True show ?thesis by (simp add: acc)
  next
    case False
    have "\<forall>y\<in>set xs. ce_cost y = pair_cost pm (ce_unit_key y) (ce_intervention y)"
      using Cons.prems(3) by simp
    from Cons.IH [OF Cons.prems(1,2) this] False show ?thesis by (simp add: acc)
  qed
qed

lemma optimize_scenario_total:
  assumes "scenarios d sid = Some scenario"
    and "\<forall>item\<in>set population_data. admin_unit_name item \<noteq> None"
  shows "\<exists>d' sc'. optimize_scenario d sid b population_data = Inr (d', sc')"
proof -
  from pop_map_loop_total [OF assms(2)] obtain pm where
    "pop_map_loop Map.empty population_data = Inr pm" by blast
  moreover from ce_data_Inr [of pm "interventions scenario"] obtain items where
    "ce_data pm (interventions scenario) = Inr items" by blast
  ultimately show ?thesis
    using assms(1) by (simp add: optimize_scenario_def Let_def split: prod.splits)
qed

text \<open>
  Claim C7. When \<open>optimize_scenario\<close> returns for a budget that is not negative: the
  candidates are the (unit, intervention) pairs of the scenario, each with its cost, with
  the effect that is the population times the rate of the intervention, and with the ratio
  cost over effect when the effect is positive and infinity otherwise; they are ranked by
  ratio in ascending order, so that whatever stands before a candidate of finite ratio has
  a finite ratio that is not greater, and infinity comes last; the loop takes each
  candidate in that order that keeps the running cost within the budget; the scenario's
  assignment and total cost are overwritten with what the loop selected, a part of the
  former assignment whose cost is the stored total; and the stored total cost is at most
  the budget.
\<close>

theorem optimize_scenario_within_budget:
  "optimize_scenario d sid b population_data = Inr (d', sc') \<Longrightarrow> 0 \<le> b \<Longrightarrow>
     \<exists>scenario pm items ranked c.
        scenarios d sid = Some scenario
      \<and> pop_map_loop Map.empty population_data = Inr pm
      \<and> ce_data pm (interventions scenario) = Inr items
      \<and> (\<lambda>x. (ce_unit_key x, ce_intervention x)) ` set items
           = assigned_pairs (interventions scenario)
      \<and> (\<forall>x\<in>set items.
            ce_cost x = pair_cost pm (ce_unit_key x) (ce_intervention x)
          \<and> ce_effect x
              = estimate_effect (ce_intervention x) (unit_population pm (ce_unit_key x))
          \<and> ce_icer x = (if 0 < ce_effect x then Some (ce_cost x / ce_effect x) else None))
      \<and> ranked = sort_key icer_key items
      \<and> mset ranked = mset items
      \<and> (\<forall>i j a. i < j \<and> j < length ranked \<and> ce_icer (ranked ! j) = Some a \<longrightarrow>
            (\<exists>a'. ce_icer (ranked ! i) = Some a' \<and> a' \<le> a))
      \<and> select_loop b ranked ([], 0) = (interventions sc', c)
      \<and> total_cost sc' = Some c
      \<and> c \<le> b
      \<and> c = assignment_cost pm (interventions sc')
      \<and> assigned_pairs (interventions sc') \<subseteq> assigned_pairs (interventions scenario)
      \<and> scenarios d' sid = Some sc'"
proof -
  assume run: "optimize_scenario d sid b population_data = Inr (d', sc')" and b: "0 \<le> b"
  from run obtain scenario where sc: "scenarios d sid = Some scenario"
    by (auto simp: optimize_scenario_def split: option.splits)
  from run sc obtain pm where pm: "pop_map_loop Map.empty population_data = Inr pm"
    by (auto simp: optimize_scenario_def split: sum.splits)
  from ce_data_Inr [of pm "interventions scenario"] obtain items where
    items: "ce_data pm (interventions scenario) = Inr items"
    and im: "map (\<lambda>x. (ce_unit_key x, ce_intervention x)) items
         = concat (map (\<lambda>(k, codes). map (Pair k) codes) (interventions scenario))"
    and ip: "\<forall>x\<in>set items.
           ce_cost x = pair_cost pm (ce_unit_key x) (ce_intervention x)
         \<and> ce_effect x = estimate_effect (ce_intervention x) (unit_population pm (ce_unit_key x))
         \<and> ce_icer x = (if 0 < ce_effect x then Some (ce_cost x / ce_effect x) else None)"
    by blast
  define ranked where "ranked = sort_key icer_key items"
  obtain opt c where sel: "select_loop b ranked ([], 0) = (opt, c)"
    by (cases "select_loop b ranked ([], 0)")
  from run sc pm items sel have
    sc': "sc' = scenario\<lparr>interventions := opt, total_cost := Some c\<rparr>"
    and d': "d' = d\<lparr>scenarios := (scenarios d)(sid \<mapsto> sc')\<rparr>"
    by (auto simp: optimize_scenario_def ranked_def Let_def)
  have pairs: "(\<lambda>x. (ce_unit_key x, ce_intervention x)) ` set items
           = assigned_pairs (interventions scenario)"
    using arg_cong [OF im, of set] by (simp only: set_map pairs_of_items)
  have rset: "set ranked = set items" by (simp add: ranked_def)
  have srt: "sorted (map icer_key ranked)" by (simp add: ranked_def)
  have order: "\<forall>i j a. i < j \<and> j < length ranked \<and> ce_icer (ranked ! j) = Some a \<longrightarrow>
            (\<exists>a'. ce_icer (ranked ! i) = Some a' \<and> a' \<le> a)"
    using icer_key_sorted [OF srt] by blast
  have le: "c \<le> b"
    using select_loop_le [of "([], 0)" b ranked] b sel by simp
  have cost: "c = assignment_cost pm opt"
    using select_loop_cost [of "([], 0)" pm ranked b] ip sel rset
    by (simp add: assignment_cost_def)
  have sub: "assigned_pairs opt \<subseteq> assigned_pairs (interventions scenario)"
    using select_loop_pairs [of b ranked "([], 0)"] sel rset pairs
    by (auto simp: assigned_pairs_def)
  have "mset ranked = mset items" by (simp add: ranked_def)
  with sc pm items pairs ip order sel le cost sub sc' d' ranked_def
  show ?thesis
    by (intro exI [of _ scenario] exI [of _ pm] exI [of _ items] exI [of _ ranked] exI [of _ c])
      simp
qed

lemma optimize_example:
  "map_sum id snd (optimize_scenario costing_db 6 6000 thousand_people) =
     Inr \<lparr>interventions = [(''U1'', [''itn'', ''vaccine''])],
           total_cost = Some (17800 / 3), estimated_cases_averted = None,
           estimated_deaths_averted = None\<rparr>"
  by (simp add: optimize_scenario_def costing_db_def three_nets_scenario_def
      thousand_people_def unit_population_def calculate_intervention_cost_def ic_get_def
      DEFAULT_UNIT_COSTS_def estimate_effect_def effect_rates_def icer_key_def
      append_intervention_def Let_def)

theorem optimize_scenario_within_budget_witness:
  "\<exists>d' sc'. optimize_scenario costing_db 6 6000 thousand_people = Inr (d', sc')
      \<and> (0::real) \<le> 6000
      \<and> interventions sc' = [(''U1'', [''itn'', ''vaccine''])]
      \<and> total_cost sc' = Some (17800 / 3)
      \<and> (\<exists>c. total_cost sc' = Some c \<and> c \<le> 6000)
      \<and> assigned_pairs (interventions sc') \<subseteq> assigned_pairs (interventions three_nets_scenario)"
proof -
  have s: "scenarios costing_db 6 = Some three_nets_scenario"
    by (simp add: costing_db_def)
  have "\<forall>item\<in>set thousand_people. admin_unit_name item \<noteq> None"
    by (simp add: thousand_people_def)
  from optimize_scenario_total [OF s this, of 6000] obtain d' sc' where
    run: "optimize_scenario costing_db 6 6000 thousand_people = Inr (d', sc')" by blast
  have b: "(0::real) \<le> 6000" by simp
  from optimize_scenario_within_budget [OF run b] s
  have "(\<exists>c. total_cost sc' = Some c \<and> c \<le> 6000)
      \<and> assigned_pairs (interventions sc') \<subseteq> assigned_pairs (interventions three_nets_scenario)"
    by auto
  moreover from optimize_example run
  have "interventions sc' = [(''U1'', [''itn'', ''vaccine''])]" "total_cost sc' = Some (17800 / 3)"
    by simp_all
  ultimately show ?thesis using run b by blast
qed

section \<open>Properties of the quality check engine\<close>










end
